theory Spec2Isabelle
  imports Main "HOL-Library.Char_ord" "HOL-Library.List_Lexorder"
begin

section \<open>ooo-view: a shallow embedding of main.go\<close>

text \<open>
  The program is a single Go file. Its calls into the operating system, the keyring,
  the OAuth2 client and the calendar API are the boundary of the embedding: what such
  a call returns is an argument of the function that makes it, and what the program
  asks of the outside world is recorded in a list of effects.
\<close>

subsection \<open>Package \<open>time\<close>\<close>

text \<open>
  An instant is a count of nanoseconds since the Unix epoch, as \<open>Time.UnixNano\<close>
  reads it, and is kept unbounded; where the program can leave the range of a \<open>Time\<close>
  the wrap-around is written out (\<open>wrapTime\<close>, in \<open>queryWindow\<close>). A \<open>Time\<close> also
  carries its location. The program reads the date and the weekday of a time, and adds
  days to it, only for times in UTC and for the times that \<open>time.Parse\<close> makes of a
  timestamp, which are in UTC or in the zone of the one offset written in the timestamp;
  so the location is kept as the offset east of UTC in force at the instant (in
  nanoseconds). The model does not cover the case in which \<open>time.Parse\<close> replaces the
  offset of a timestamp by the process's \<open>Local\<close> location with a daylight-saving
  rule: there \<open>AddDate\<close> keeps the wall clock over a change of the offset.
\<close>

definition nsPerSecond :: int where
  "nsPerSecond = 1000000000"

definition nsPerDay :: int where
  "nsPerDay = 86400 * nsPerSecond"

record Time =
  unixNano :: int
  zoneOffset :: int

definition Before :: "Time \<Rightarrow> Time \<Rightarrow> bool" where
  "Before t u = (unixNano t < unixNano u)"

definition After :: "Time \<Rightarrow> Time \<Rightarrow> bool" where
  "After t u = (unixNano u < unixNano t)"

definition Equal :: "Time \<Rightarrow> Time \<Rightarrow> bool" where
  "Equal t u = (unixNano t = unixNano u)"

text \<open>
  \<open>localDay\<close> is the calendar date of a time in its own location, as the number of
  days since 1970-01-01. \<open>t.Format("2006-01-02")\<close> writes this date as text, one text
  per date, so the model uses the day number wherever the program uses the text as a
  map key.
\<close>

definition localDay :: "Time \<Rightarrow> int" where
  "localDay t = (unixNano t + zoneOffset t) div nsPerDay"

definition Format_date :: "Time \<Rightarrow> int" where
  "Format_date t = localDay t"

text \<open>\<open>time.Weekday\<close>: Sunday is 0; 1970-01-01 was a Thursday.\<close>

definition Sunday :: int where "Sunday = 0"
definition Monday :: int where "Monday = 1"

definition Weekday :: "Time \<Rightarrow> int" where
  "Weekday t = (localDay t + 4) mod 7"

text \<open>
  \<open>t.AddDate(0, 0, n)\<close>: the same wall clock \<open>n\<close> days later, in the same location.
  For a time in UTC or in a zone of one fixed offset that is \<open>n\<close> times 24 hours later,
  as long as the result is in the range of a \<open>Time\<close> (see \<open>wrapTime\<close> below). The
  program adds days to the dates of the window, which are in UTC, and to the times of
  events, which \<open>time.Parse\<close> puts in UTC or in a fixed zone with the exception named
  above.
\<close>

definition AddDate_days :: "Time \<Rightarrow> int \<Rightarrow> Time" where
  "AddDate_days t n = t\<lparr>unixNano := unixNano t + n * nsPerDay\<rparr>"

text \<open>
  \<open>time.Date(t.Year(), t.Month(), t.Day(), h, m, s, 0, t.Location())\<close>: the date of
  \<open>t\<close> at the given wall clock, in the location of \<open>t\<close>.
\<close>

definition Date_of :: "Time \<Rightarrow> int \<Rightarrow> int \<Rightarrow> int \<Rightarrow> Time" where
  "Date_of t h m s =
     t\<lparr>unixNano := localDay t * nsPerDay + ((h * 60 + m) * 60 + s) * nsPerSecond - zoneOffset t\<rparr>"

text \<open>
  A \<open>time.Duration\<close> is an int64 count of nanoseconds. \<open>t.Sub(u)\<close> is the difference
  of the two instants, and the largest or smallest \<open>Duration\<close> where the difference does
  not fit.
\<close>

definition minDuration64 :: int where
  "minDuration64 = - (2 ^ 63)"

definition maxDuration64 :: int where
  "maxDuration64 = 2 ^ 63 - 1"

definition Sub :: "Time \<Rightarrow> Time \<Rightarrow> int" where
  "Sub t u =
     (let d = unixNano t - unixNano u
      in if d < minDuration64 then minDuration64
         else if maxDuration64 < d then maxDuration64
         else d)"

text \<open>
  Go's \<open>int\<close> is taken at 64 bits: arithmetic on it wraps around modulo \<open>2 ^ 64\<close>. A
  \<open>Time\<close> holds its seconds as an int64 count from the year 1, which is
  \<open>unixToInternal\<close> seconds before the Unix epoch, and \<open>time.Date\<close> and
  \<open>AddDate\<close> compute these seconds in 64-bit arithmetic: what they return for a date
  outside the range is the date with its seconds wrapped around. \<open>wrapTime\<close> is that
  wrap-around; it changes nothing within the range, which reaches some 292 billion years
  to either side.
\<close>

definition wrapInt64 :: "int \<Rightarrow> int" where
  "wrapInt64 x = (x + 2 ^ 63) mod 2 ^ 64 - 2 ^ 63"

definition unixToInternal :: int where
  "unixToInternal = 62135596800"

definition wrapTime :: "Time \<Rightarrow> Time" where
  "wrapTime t =
     t\<lparr>unixNano :=
         (wrapInt64 (unixNano t div nsPerSecond + unixToInternal) - unixToInternal) * nsPerSecond
         + unixNano t mod nsPerSecond\<rparr>"

text \<open>
  A \<open>*time.Location\<close> is read through its \<open>lookup\<close>: for an instant, in Unix
  seconds, the offset in force (seconds east of UTC) and the first and the end of the
  period in which it is in force. UTC has the offset 0 throughout.
\<close>

type_synonym Location = "int \<Rightarrow> int \<times> int \<times> int"

definition alpha :: int where
  "alpha = - (2 ^ 63)"

definition omega :: int where
  "omega = 2 ^ 63 - 1"

definition UTC :: Location where
  "UTC sec = (0, alpha, omega)"

text \<open>
  The end of \<open>time.Date\<close>, which turns a wall clock into an instant. \<open>unix\<close> is the
  wall clock counted in seconds as if it were in UTC. The offset is looked up at \<open>unix\<close>
  itself; when the instant that this offset gives lies outside the period of the offset,
  the offset is looked up once more, at that instant. A wall clock that the zone skips
  comes out as another wall clock.
\<close>

definition Date_in :: "Location \<Rightarrow> int \<Rightarrow> int" where
  "Date_in loc unix =
     (case loc unix of
        (offset, start, stop) \<Rightarrow>
          if offset \<noteq> 0
          then (let utc = unix - offset;
                    offset' = (if utc < start \<or> stop \<le> utc then fst (loc utc) else offset)
                in unix - offset')
          else unix)"

text \<open>
  \<open>time.Parse("2006-01-02", s)\<close> is \<open>time.Date\<close> of the date at 00:00:00 in UTC, and
  \<open>time.ParseInLocation("2006-01-02", s, loc)\<close> is \<open>time.Date\<close> of the date at
  00:00:00 in \<open>loc\<close>. The parsers of the two layouts are arguments: \<open>parseStamp\<close> for
  \<open>time.RFC3339\<close> (the instant and the offset written in the text) and \<open>parseDay\<close>
  for \<open>"2006-01-02"\<close> (the day number of the date, for the years 0 to 9999 that the
  layout can write); \<open>None\<close> is a parse error.
\<close>

type_synonym stamp_parser = "string \<Rightarrow> Time option"
type_synonym day_parser = "string \<Rightarrow> int option"

definition Parse_date :: "day_parser \<Rightarrow> string \<Rightarrow> Time option" where
  "Parse_date parseDay s =
     (case parseDay s of
        None \<Rightarrow> None
      | Some d \<Rightarrow> Some \<lparr>unixNano = d * nsPerDay, zoneOffset = 0\<rparr>)"

definition ParseInLocation_date :: "day_parser \<Rightarrow> string \<Rightarrow> Location \<Rightarrow> Time option" where
  "ParseInLocation_date parseDay s loc =
     (case parseDay s of
        None \<Rightarrow> None
      | Some d \<Rightarrow>
          (let unix = Date_in loc (d * 86400)
           in Some \<lparr>unixNano = unix * nsPerSecond, zoneOffset = fst (loc unix) * nsPerSecond\<rparr>))"

subsection \<open>Configuration: \<open>parseFlags\<close>\<close>

definition serviceName :: string where "serviceName = ''calendar-ui''"
definition clientSecretKey :: string where "clientSecretKey = ''client-secret''"
definition tokenKey :: string where "tokenKey = ''oauth-token''"

record Config =
  WeeksAhead :: int
  MinDuration :: int
  TimeZone :: string

text \<open>
  The keyring maps a service and a key to a secret. \<open>keyring.Delete\<close> fails on a key
  that is not there.
\<close>

type_synonym keyring = "string \<times> string \<Rightarrow> string option"

definition keyring_Delete :: "keyring \<Rightarrow> string \<Rightarrow> string \<Rightarrow> keyring option" where
  "keyring_Delete kr service key =
     (case kr (service, key) of
        None \<Rightarrow> None
      | Some _ \<Rightarrow> Some (kr((service, key) := None)))"

text \<open>
  What \<open>flag.Parse\<close> found on the command line: a value for each option given, and the
  two switches.
\<close>

record Flags =
  weeks :: "int option"
  min_duration :: "int option"
  timezone :: "string option"
  reset_secret :: bool
  reset_token :: bool

datatype fatal = Fatal string

text \<open>One \<open>keyring.Delete\<close> with its message: the new keyring and the line printed.\<close>

definition deleteAndReport :: "keyring \<Rightarrow> string \<Rightarrow> string \<Rightarrow> string \<Rightarrow> keyring \<times> string" where
  "deleteAndReport kr key warning done =
     (case keyring_Delete kr serviceName key of
        None \<Rightarrow> (kr, warning)
      | Some kr' \<Rightarrow> (kr', done))"

text \<open>
  \<open>parseFlags\<close>. \<open>localTZ\<close> is the result of \<open>time.LoadLocation("Local")\<close>, as the
  name of the location (\<open>None\<close>: the error, which ends the program), and \<open>env_tz\<close> is
  \<open>os.Getenv("CALENDAR_TIMEZONE")\<close>, empty when the variable is not set. The result is
  the configuration, the keyring after the resets and the lines printed.
\<close>

definition parseFlags ::
  "string option \<Rightarrow> Flags \<Rightarrow> string \<Rightarrow> keyring \<Rightarrow> fatal + (Config \<times> keyring \<times> string list)" where
  "parseFlags localTZ fl env_tz kr =
     (case localTZ of
        None \<Rightarrow> Inl (Fatal ''Error getting local timezone'')
      | Some tzname \<Rightarrow>
          (let cfg0 = \<lparr>WeeksAhead = 8, MinDuration = 24 * 3600 * nsPerSecond, TimeZone = tzname\<rparr>;
               cfg1 = cfg0\<lparr>WeeksAhead := (case weeks fl of None \<Rightarrow> WeeksAhead cfg0 | Some w \<Rightarrow> w)\<rparr>;
               cfg2 = cfg1\<lparr>MinDuration := (case min_duration fl of None \<Rightarrow> MinDuration cfg1 | Some d \<Rightarrow> d)\<rparr>;
               cfg3 = cfg2\<lparr>TimeZone := (case timezone fl of None \<Rightarrow> TimeZone cfg2 | Some z \<Rightarrow> z)\<rparr>;
               (kr1, out1) =
                 (if reset_secret fl
                  then (let (ka, la) = deleteAndReport kr clientSecretKey
                                         ''Warning: Could not delete client secret''
                                         ''Client secret has been reset.'';
                            (kb, lb) = deleteAndReport ka tokenKey
                                         ''Warning: Could not delete OAuth token''
                                         ''OAuth token has been reset.''
                        in (kb, [la, lb]))
                  else (kr, []));
               (kr2, out2) =
                 (if reset_token fl
                  then (let (kc, lc) = deleteAndReport kr1 tokenKey
                                         ''Warning: Could not delete OAuth token''
                                         ''OAuth token has been reset.''
                        in (kc, out1 @ [lc]))
                  else (kr1, out1));
               cfg4 = (if env_tz \<noteq> [] then cfg3\<lparr>TimeZone := env_tz\<rparr> else cfg3)
           in Inr (cfg4, kr2, out2)))"

subsection \<open>Calendar events and \<open>getOutOfOfficeEvents\<close>\<close>

text \<open>
  Of a \<open>calendar.Event\<close> the program reads the start and the end, each an
  \<open>EventDateTime\<close> with a \<open>DateTime\<close> text (timed events) and a \<open>Date\<close> text
  (all-day events); an absent text is empty. The calendar API gives every event both, so
  the two pointers are never nil here.
\<close>

record EventDateTime =
  DateTime :: string
  Date :: string

record Event =
  Summary :: string
  Start :: EventDateTime
  End :: EventDateTime

text \<open>
  The conversion of one \<open>EventDateTime\<close> in \<open>getOutOfOfficeEvents\<close> (the source
  writes it out twice, for the start and for the end): \<open>time.Parse(time.RFC3339, _)\<close>
  on a non-empty \<open>DateTime\<close>, \<open>time.ParseInLocation("2006-01-02", _, loc)\<close> on the
  \<open>Date\<close> otherwise.
\<close>

definition filter_eventTime ::
  "stamp_parser \<Rightarrow> day_parser \<Rightarrow> Location \<Rightarrow> EventDateTime \<Rightarrow> Time option" where
  "filter_eventTime parseStamp parseDay loc edt =
     (if DateTime edt \<noteq> [] then parseStamp (DateTime edt)
      else ParseInLocation_date parseDay (Date edt) loc)"

text \<open>
  The loop over \<open>events.Items\<close>: an event whose start or end does not parse is skipped
  (\<open>continue\<close>), and an event is appended to \<open>filteredEvents\<close> when
  \<open>end.Sub(start) >= minDuration\<close>.
\<close>

fun filterEvents ::
  "stamp_parser \<Rightarrow> day_parser \<Rightarrow> Location \<Rightarrow> int \<Rightarrow> Event list \<Rightarrow> Event list \<Rightarrow> Event list" where
  "filterEvents parseStamp parseDay loc minDuration filteredEvents [] = filteredEvents"
| "filterEvents parseStamp parseDay loc minDuration filteredEvents (event # items) =
     (case filter_eventTime parseStamp parseDay loc (Start event) of
        None \<Rightarrow> filterEvents parseStamp parseDay loc minDuration filteredEvents items
      | Some start \<Rightarrow>
          (case filter_eventTime parseStamp parseDay loc (End event) of
             None \<Rightarrow> filterEvents parseStamp parseDay loc minDuration filteredEvents items
           | Some stop \<Rightarrow>
               if minDuration \<le> Sub stop start
               then filterEvents parseStamp parseDay loc minDuration (filteredEvents @ [event]) items
               else filterEvents parseStamp parseDay loc minDuration filteredEvents items))"

datatype fetch_error = UnableToRetrieveEvents | InvalidTimezone

text \<open>
  \<open>getOutOfOfficeEvents\<close>. \<open>listed\<close> is the answer of the \<open>Events.List\<close> call for the
  calendar (\<open>None\<close>: the call failed) and \<open>loaded\<close> that of
  \<open>time.LoadLocation(timezone)\<close>.
\<close>

definition getOutOfOfficeEvents ::
  "stamp_parser \<Rightarrow> day_parser \<Rightarrow> Event list option \<Rightarrow> Location option \<Rightarrow> int
     \<Rightarrow> fetch_error + Event list" where
  "getOutOfOfficeEvents parseStamp parseDay listed loaded minDuration =
     (case listed of
        None \<Rightarrow> Inl UnableToRetrieveEvents
      | Some items \<Rightarrow>
          (case loaded of
             None \<Rightarrow> Inl InvalidTimezone
           | Some loc \<Rightarrow> Inr (filterEvents parseStamp parseDay loc minDuration [] items)))"

subsection \<open>\<open>displayCalendar\<close>\<close>

text \<open>
  \<open>eventsByDate\<close> maps a date to the persons out of office on it. The source keeps a
  \<open>map[string]bool\<close> per date in which every entry is \<open>true\<close>, read with the zero
  value \<open>false\<close> for a person or a date that is not there: a set of persons per date.
\<close>

type_synonym grid = "int \<Rightarrow> string set"

text \<open>The conversion of one \<open>EventDateTime\<close> in \<open>displayCalendar\<close>.\<close>

definition display_eventTime :: "stamp_parser \<Rightarrow> day_parser \<Rightarrow> EventDateTime \<Rightarrow> Time option" where
  "display_eventTime parseStamp parseDay edt =
     (if DateTime edt \<noteq> [] then parseStamp (DateTime edt)
      else Parse_date parseDay (Date edt))"

text \<open>\<open>for d := start; d.Before(end); d = d.AddDate(0, 0, 1)\<close>, marking the date of \<open>d\<close>.\<close>

function markDays :: "string \<Rightarrow> Time \<Rightarrow> Time \<Rightarrow> grid \<Rightarrow> grid" where
  "markDays person d stop eventsByDate =
     (if Before d stop
      then markDays person (AddDate_days d 1) stop
             (eventsByDate(Format_date d := insert person (eventsByDate (Format_date d))))
      else eventsByDate)"
  by pat_completeness auto
termination
  by (relation "measure (\<lambda>(person, d, stop, g). nat (unixNano stop - unixNano d))")
     (auto simp: Before_def AddDate_days_def nsPerDay_def nsPerSecond_def)

text \<open>The loop over one person's events; an event that does not parse is skipped.\<close>

fun addEvents :: "stamp_parser \<Rightarrow> day_parser \<Rightarrow> string \<Rightarrow> Event list \<Rightarrow> grid \<Rightarrow> grid" where
  "addEvents parseStamp parseDay person [] eventsByDate = eventsByDate"
| "addEvents parseStamp parseDay person (event # events) eventsByDate =
     (case display_eventTime parseStamp parseDay (Start event) of
        None \<Rightarrow> addEvents parseStamp parseDay person events eventsByDate
      | Some start \<Rightarrow>
          (case display_eventTime parseStamp parseDay (End event) of
             None \<Rightarrow> addEvents parseStamp parseDay person events eventsByDate
           | Some stop \<Rightarrow>
               addEvents parseStamp parseDay person events (markDays person start stop eventsByDate)))"

text \<open>
  The loop over \<open>eventsByPerson\<close>. Go visits the entries of a map in no fixed order;
  the list is the entries in the order of one visit.
\<close>

fun groupByDate ::
  "stamp_parser \<Rightarrow> day_parser \<Rightarrow> (string \<times> Event list) list \<Rightarrow> grid \<Rightarrow> grid" where
  "groupByDate parseStamp parseDay [] eventsByDate = eventsByDate"
| "groupByDate parseStamp parseDay ((person, events) # rest) eventsByDate =
     groupByDate parseStamp parseDay rest (addEvents parseStamp parseDay person events eventsByDate)"

text \<open>\<open>for t.Weekday() != time.Monday { t = t.AddDate(0, 0, -1) }\<close>\<close>

function toMonday :: "Time \<Rightarrow> Time" where
  "toMonday t = (if Weekday t \<noteq> Monday then toMonday (AddDate_days t (- 1)) else t)"
  by pat_completeness auto
termination
proof (relation "measure (\<lambda>t. nat ((localDay t + 3) mod 7))")
  show "wf (measure (\<lambda>t. nat ((localDay t + 3) mod 7)))"
    by simp
next
  fix t :: Time
  assume wd: "Weekday t \<noteq> Monday"
  have "(unixNano t + zoneOffset t - nsPerDay) div nsPerDay
          = (unixNano t + zoneOffset t) div nsPerDay - 1"
    by (simp add: nsPerDay_def nsPerSecond_def)
  then have prev: "localDay (AddDate_days t (- 1)) = localDay t - 1"
    by (simp add: localDay_def AddDate_days_def algebra_simps)
  have "(localDay t + 3) mod 7 \<noteq> 0"
    using wd unfolding Weekday_def Monday_def by presburger
  then have "(localDay t - 1 + 3) mod 7 < (localDay t + 3) mod 7"
    by presburger
  moreover have "0 \<le> (localDay t - 1 + 3) mod 7"
    by simp
  ultimately show "(AddDate_days t (- 1), t) \<in> measure (\<lambda>t. nat ((localDay t + 3) mod 7))"
    using prev by simp
qed

text \<open>\<open>for t.Weekday() != time.Sunday { t = t.AddDate(0, 0, 1) }\<close>\<close>

function toSunday :: "Time \<Rightarrow> Time" where
  "toSunday t = (if Weekday t \<noteq> Sunday then toSunday (AddDate_days t 1) else t)"
  by pat_completeness auto
termination
proof (relation "measure (\<lambda>t. nat ((- (localDay t + 4)) mod 7))")
  show "wf (measure (\<lambda>t. nat ((- (localDay t + 4)) mod 7)))"
    by simp
next
  fix t :: Time
  assume wd: "Weekday t \<noteq> Sunday"
  have "(unixNano t + zoneOffset t + nsPerDay) div nsPerDay
          = (unixNano t + zoneOffset t) div nsPerDay + 1"
    by (simp add: nsPerDay_def nsPerSecond_def)
  then have nxt: "localDay (AddDate_days t 1) = localDay t + 1"
    by (simp add: localDay_def AddDate_days_def algebra_simps)
  have "(localDay t + 4) mod 7 \<noteq> 0"
    using wd unfolding Weekday_def Sunday_def by presburger
  then have "(- (localDay t + 1 + 4)) mod 7 < (- (localDay t + 4)) mod 7"
    by presburger
  moreover have "0 \<le> (- (localDay t + 1 + 4)) mod 7"
    by simp
  ultimately show "(AddDate_days t 1, t) \<in> measure (\<lambda>t. nat ((- (localDay t + 4)) mod 7))"
    using nxt by simp
qed

text \<open>
  What \<open>displayCalendar\<close> prints, line by line. The header line carries the first and
  the last day of the week (printed as month and day), a person's row the name shown and
  the seven markers (\<open>True\<close>: \<open>OOO\<close>).
\<close>

datatype line = Blank | Header Time Time | Rule | NoOOOEvents | Row string "bool list"

text \<open>The persons with an entry on one of the seven days from \<open>currentDate\<close>.\<close>

definition peopleThisWeek :: "grid \<Rightarrow> Time \<Rightarrow> string set" where
  "peopleThisWeek eventsByDate currentDate =
     fold (\<lambda>i people. people \<union> eventsByDate (Format_date (AddDate_days currentDate (int i))))
       [0..<7] {}"

text \<open>The keys of \<open>peopleThisWeek\<close> in a slice, after \<open>sort.Strings\<close>.\<close>

definition sortedPeople :: "grid \<Rightarrow> Time \<Rightarrow> string list" where
  "sortedPeople eventsByDate currentDate =
     sorted_list_of_set (peopleThisWeek eventsByDate currentDate)"

definition displayName :: "string \<Rightarrow> string" where
  "displayName person = (if 20 < length person then take 17 person @ ''...'' else person)"

definition personRow :: "grid \<Rightarrow> Time \<Rightarrow> string \<Rightarrow> line" where
  "personRow eventsByDate currentDate person =
     Row (displayName person)
       (map (\<lambda>i. person \<in> eventsByDate (Format_date (AddDate_days currentDate (int i)))) [0..<7])"

definition weekBlock :: "grid \<Rightarrow> Time \<Rightarrow> line list" where
  "weekBlock eventsByDate currentDate =
     (let weekEnd = AddDate_days currentDate 6;
          people = sortedPeople eventsByDate currentDate
      in [Blank, Header currentDate weekEnd, Rule]
         @ (if length people = 0 then [NoOOOEvents]
            else map (personRow eventsByDate currentDate) people)
         @ [Rule])"

text \<open>\<open>for currentDate.Before(timeMax) || currentDate.Equal(timeMax)\<close>, one block a turn.\<close>

function printWeeks :: "grid \<Rightarrow> Time \<Rightarrow> Time \<Rightarrow> line list list" where
  "printWeeks eventsByDate currentDate timeMax =
     (if Before currentDate timeMax \<or> Equal currentDate timeMax
      then weekBlock eventsByDate currentDate
             # printWeeks eventsByDate (AddDate_days currentDate 7) timeMax
      else [])"
  by pat_completeness auto
termination
  by (relation "measure (\<lambda>(g, c, m). nat (unixNano m - unixNano c + 1))")
     (auto simp: Before_def Equal_def AddDate_days_def nsPerDay_def nsPerSecond_def)

text \<open>The grid that \<open>displayCalendar\<close> builds, and the week blocks it prints.\<close>

definition buildGrid :: "stamp_parser \<Rightarrow> day_parser \<Rightarrow> (string \<times> Event list) list \<Rightarrow> grid" where
  "buildGrid parseStamp parseDay eventsByPerson =
     groupByDate parseStamp parseDay eventsByPerson (\<lambda>dateKey. {})"

definition displayBlocks ::
  "stamp_parser \<Rightarrow> day_parser \<Rightarrow> (string \<times> Event list) list \<Rightarrow> Time \<Rightarrow> Time \<Rightarrow> line list list" where
  "displayBlocks parseStamp parseDay eventsByPerson timeMin timeMax =
     (let eventsByDate = buildGrid parseStamp parseDay eventsByPerson;
          startDate = toMonday timeMin
      in printWeeks eventsByDate startDate timeMax)"

definition displayCalendar ::
  "stamp_parser \<Rightarrow> day_parser \<Rightarrow> (string \<times> Event list) list \<Rightarrow> Time \<Rightarrow> Time \<Rightarrow> line list" where
  "displayCalendar parseStamp parseDay eventsByPerson timeMin timeMax =
     concat (displayBlocks parseStamp parseDay eventsByPerson timeMin timeMax) @ [Blank]"

subsection \<open>The query window of \<open>main\<close>\<close>

text \<open>
  From \<open>now := time.Now().UTC()\<close> to \<open>end\<close>, as \<open>main\<close> computes them before the
  free/busy query. \<open>nowNano\<close> is the instant that \<open>time.Now()\<close> returns and
  \<open>weeksAhead\<close> is \<open>cfg.WeeksAhead\<close>, which comes from the command line: the product
  \<open>cfg.WeeksAhead*7\<close> wraps around as an \<open>int\<close>, and the date that \<open>AddDate\<close>
  makes of it wraps around as a \<open>Time\<close>. The steps to Sunday from that date are
  taken without a further wrap-around, which is exact unless the date lies within a week
  of the ends of the range.
\<close>

definition queryWindow :: "int \<Rightarrow> int \<Rightarrow> Time \<times> Time" where
  "queryWindow nowNano weeksAhead =
     (let now0 = \<lparr>unixNano = nowNano, zoneOffset = 0\<rparr>;
          now1 = toMonday now0;
          now2 = Date_of now1 0 0 0;
          end0 = wrapTime (AddDate_days now2 (wrapInt64 (weeksAhead * 7)));
          end1 = toSunday end0;
          end2 = Date_of end1 23 59 59
      in (now2, end2))"

subsection \<open>\<open>getToken\<close>\<close>

text \<open>An \<open>oauth2.Token\<close>; \<open>Expiry\<close> is a \<open>time.Time\<close>.\<close>

record Token =
  AccessToken :: string
  TokenType :: string
  RefreshToken :: string
  Expiry :: Time

text \<open>The errors that \<open>getToken\<close> returns, one for each \<open>return nil, ...\<close>.\<close>

datatype auth_error =
    UnableToGenerateState
  | UnableToGetRandomPort
  | UnableToOpenBrowser
  | InvalidStateParameter
  | NoCodeReceived
  | ServerError
  | ContextDone
  | UnableToRetrieveToken
  | UnableToMarshalToken
  | UnableToStoreToken

text \<open>
  Of a request to the loopback server the handler reads \<open>r.URL.Query().Get("state")\<close>
  and \<open>r.URL.Query().Get("code")\<close>, each empty when the parameter is absent. The
  handler sends one message, an error on \<open>errChan\<close> or the code on \<open>codeChan\<close>.
\<close>

record Request =
  query_state :: string
  query_code :: string

datatype message = OnErrChan auth_error | OnCodeChan string | OnDone

definition handler :: "string \<Rightarrow> Request \<Rightarrow> message" where
  "handler state r =
     (if query_state r \<noteq> state then OnErrChan InvalidStateParameter
      else if query_code r = [] then OnErrChan NoCodeReceived
      else OnCodeChan (query_code r))"

text \<open>
  The \<open>select\<close> of \<open>getToken\<close> receives once, from \<open>codeChan\<close>, from \<open>errChan\<close>
  or from \<open>ctx.Done()\<close>, and both channels are unbuffered: of everything that happens
  while \<open>getToken\<close> waits, one event decides. That event is a request served by the
  handler, a failure of \<open>server.ListenAndServe\<close>, or the cancellation of the context.
\<close>

datatype event = Callback Request | ListenAndServeFailed | Cancelled

definition received :: "string \<Rightarrow> event \<Rightarrow> message" where
  "received state ev =
     (case ev of
        Callback r \<Rightarrow> handler state r
      | ListenAndServeFailed \<Rightarrow> OnErrChan ServerError
      | Cancelled \<Rightarrow> OnDone)"

text \<open>
  What \<open>getToken\<close> asks of the outside world, in order: the listener on port 0 and its
  \<open>Close\<close>, the goroutine that runs \<open>server.ListenAndServe\<close> on the port, the
  browser opened on the authorization URL (made of the state and the port), the token
  exchange with a code, \<open>keyring.Set\<close>, and the goroutine that runs
  \<open>server.Shutdown\<close>.
\<close>

datatype effect =
    NetListen
  | ListenerClose nat
  | ListenAndServe nat
  | OpenBrowser string nat
  | Exchange string
  | KeyringSet string string
  | ServerShutdown nat

text \<open>
  What the outside world answers in one run. \<open>randomState\<close> is the result of
  \<open>generateRandomState\<close> (\<open>None\<close>: \<open>rand.Read\<close> failed); \<open>decodeToken\<close> is
  \<open>json.Unmarshal\<close> into a token; \<open>clock\<close> is \<open>time.Now()\<close>; \<open>freePort\<close> is the
  port of \<open>net.Listen("tcp", "127.0.0.1:0")\<close>; \<open>firstEvent\<close> is the event that the
  \<open>select\<close> receives (\<open>None\<close>: nothing ever arrives); \<open>exchange\<close> is
  \<open>config.Exchange\<close>; \<open>encodeToken\<close> is \<open>json.Marshal\<close>.
\<close>

record World =
  randomState :: "string option"
  decodeToken :: "string \<Rightarrow> Token option"
  clock :: Time
  freePort :: "nat option"
  browserOpens :: bool
  firstEvent :: "event option"
  exchange :: "string \<Rightarrow> Token option"
  encodeToken :: "Token \<Rightarrow> string option"
  keyringSetOk :: bool

text \<open>The first part of \<open>getToken\<close>: the token of the keyring, when it can be used.\<close>

definition cachedToken :: "World \<Rightarrow> keyring \<Rightarrow> Token option" where
  "cachedToken w kr =
     (case kr (serviceName, tokenKey) of
        None \<Rightarrow> None
      | Some tokenJSON \<Rightarrow>
          (case decodeToken w tokenJSON of
             None \<Rightarrow> None
           | Some token \<Rightarrow> if After (Expiry token) (clock w) then Some token else None))"

text \<open>
  The rest of \<open>getToken\<close>, from \<open>net.Listen\<close> on. The result is what \<open>getToken\<close>
  returns (\<open>None\<close>: it never returns) and the effects up to there.
\<close>

definition authorize :: "World \<Rightarrow> string \<Rightarrow> (auth_error + Token) option \<times> effect list" where
  "authorize w state =
     (case freePort w of
        None \<Rightarrow> (Some (Inl UnableToGetRandomPort), [NetListen])
      | Some port \<Rightarrow>
          (let started = [NetListen, ListenerClose port, ListenAndServe port, OpenBrowser state port]
           in if \<not> browserOpens w then (Some (Inl UnableToOpenBrowser), started)
              else
                (case firstEvent w of
                   None \<Rightarrow> (None, started)
                 | Some ev \<Rightarrow>
                     (case received state ev of
                        OnErrChan err \<Rightarrow> (Some (Inl err), started)
                      | OnDone \<Rightarrow> (Some (Inl ContextDone), started)
                      | OnCodeChan authCode \<Rightarrow>
                          (case exchange w authCode of
                             None \<Rightarrow> (Some (Inl UnableToRetrieveToken), started @ [Exchange authCode])
                           | Some tok \<Rightarrow>
                               (case encodeToken w tok of
                                  None \<Rightarrow>
                                    (Some (Inl UnableToMarshalToken), started @ [Exchange authCode])
                                | Some tokenBytes \<Rightarrow>
                                    if \<not> keyringSetOk w
                                    then (Some (Inl UnableToStoreToken),
                                          started @ [Exchange authCode, KeyringSet tokenKey tokenBytes])
                                    else (Some (Inr tok),
                                          started @ [Exchange authCode, KeyringSet tokenKey tokenBytes,
                                                     ServerShutdown port])))))))"

definition getToken :: "World \<Rightarrow> keyring \<Rightarrow> (auth_error + Token) option \<times> effect list" where
  "getToken w kr =
     (case randomState w of
        None \<Rightarrow> (Some (Inl UnableToGenerateState), [])
      | Some state \<Rightarrow>
          (case cachedToken w kr of
             Some token \<Rightarrow> (Some (Inr token), [])
           | None \<Rightarrow> authorize w state))"

subsection \<open>The fan-out of \<open>main\<close>\<close>

text \<open>
  \<open>main\<close> starts one goroutine for each calendar of the free/busy answer and waits for
  all of them. A goroutine fetches its member's events, and then either logs the error
  or, under the mutex, writes the events into \<open>eventsByPerson\<close>; its deferred
  \<open>wg.Done()\<close> comes last. The fetch shares nothing with the other goroutines, so a
  goroutine is one step of the model, taken when it finishes. The state: the turns of
  the \<open>for\<close> loop still to come, the goroutines started and not finished, the counter
  of the \<open>WaitGroup\<close>, the map, and the log.
\<close>

record fanout =
  toSpawn :: "string list"
  running :: "string set"
  wgCounter :: int
  eventsByPerson :: "string \<Rightarrow> Event list option"
  logged :: "(string \<times> fetch_error) list"


text \<open>
  A step is a turn of the loop (\<open>wg.Add(1)\<close> and \<open>go\<close>) or the end of a running
  goroutine; \<open>None\<close> when the step cannot be taken.
\<close>

datatype action = Spawn | Finish string

fun step :: "(string \<Rightarrow> fetch_error + Event list) \<Rightarrow> action \<Rightarrow> fanout \<Rightarrow> fanout option" where
  "step fetch Spawn s =
     (case toSpawn s of
        [] \<Rightarrow> None
      | email # rest \<Rightarrow>
          Some (s\<lparr>toSpawn := rest, running := insert email (running s),
                  wgCounter := wgCounter s + 1\<rparr>))"
| "step fetch (Finish email) s =
     (if email \<notin> running s then None
      else
        (case fetch email of
           Inl err \<Rightarrow>
             Some (s\<lparr>running := running s - {email}, wgCounter := wgCounter s - 1,
                     logged := logged s @ [(email, err)]\<rparr>)
         | Inr events \<Rightarrow>
             Some (s\<lparr>running := running s - {email}, wgCounter := wgCounter s - 1,
                     eventsByPerson := (eventsByPerson s)(email \<mapsto> events)\<rparr>)))"

fun exec :: "(string \<Rightarrow> fetch_error + Event list) \<Rightarrow> action list \<Rightarrow> fanout \<Rightarrow> fanout option" where
  "exec fetch [] s = Some s"
| "exec fetch (a # as) s =
     (case step fetch a s of
        None \<Rightarrow> None
      | Some s' \<Rightarrow> exec fetch as s')"




subsection \<open>Example inputs\<close>

text \<open>
  The inputs of the examples below: the week of Monday 2025-05-12 (day 20220 since the
  epoch), the parsers restricted to the texts that occur, and the team of the README.
\<close>

definition ex_parseDay :: day_parser where
  "ex_parseDay s =
     (if s = ''2025-03-30'' then Some 20177
      else if s = ''2025-03-31'' then Some 20178
      else if s = ''2025-05-13'' then Some 20221
      else if s = ''2025-05-14'' then Some 20222
      else if s = ''2025-05-15'' then Some 20223
      else if s = ''2025-05-16'' then Some 20224
      else if s = ''2025-09-07'' then Some 20338
      else None)"

definition ex_parseStamp :: stamp_parser where
  "ex_parseStamp s =
     (if s = ''2025-05-16T17:00:00Z''
      then Some \<lparr>unixNano = (20224 * 86400 + 17 * 3600) * nsPerSecond, zoneOffset = 0\<rparr>
      else if s = ''2025-05-19T09:00:00Z''
      then Some \<lparr>unixNano = (20227 * 86400 + 9 * 3600) * nsPerSecond, zoneOffset = 0\<rparr>
      else None)"

text \<open>
  Europe/Amsterdam from the end of October 2024 to the end of October 2025: one hour east
  of UTC until 2025-03-30 01:00 UTC, two hours from then on.
\<close>

definition ex_amsterdam :: Location where
  "ex_amsterdam sec =
     (if sec < 20177 * 86400 + 3600
      then (3600, 20023 * 86400 + 3600, 20177 * 86400 + 3600)
      else (7200, 20177 * 86400 + 3600, 20387 * 86400 + 3600))"

text \<open>
  America/Santiago from April 2025 to April 2026: four hours west of UTC until
  2025-09-07 04:00 UTC, which is midnight there, and three hours from then on, so that
  the wall clock goes from 23:59 of the 6th to 01:00 of the 7th.
\<close>

definition ex_santiago :: Location where
  "ex_santiago sec =
     (if sec < 20338 * 86400 + 14400
      then (- 14400, 20184 * 86400 + 10800, 20338 * 86400 + 14400)
      else (- 10800, 20338 * 86400 + 14400, 20548 * 86400 + 10800))"

text \<open>An all-day event and a timed event, as the calendar API gives them.\<close>

definition allDay :: "string \<Rightarrow> string \<Rightarrow> Event" where
  "allDay first next =
     \<lparr>Summary = ''Out of office'', Start = \<lparr>DateTime = [], Date = first\<rparr>,
      End = \<lparr>DateTime = [], Date = next\<rparr>\<rparr>"

definition timed :: "string \<Rightarrow> string \<Rightarrow> Event" where
  "timed from until =
     \<lparr>Summary = ''Out of office'', Start = \<lparr>DateTime = from, Date = []\<rparr>,
      End = \<lparr>DateTime = until, Date = []\<rparr>\<rparr>"

definition ex_team :: "(string \<times> Event list) list" where
  "ex_team =
     [(''jenny@example.com'', [allDay ''2025-05-13'' ''2025-05-14'']),
      (''danny@example.com'', [allDay ''2025-05-15'' ''2025-05-16''])]"

definition ex_timeMin :: Time where
  "ex_timeMin = \<lparr>unixNano = 20220 * nsPerDay, zoneOffset = 0\<rparr>"

definition ex_timeMax :: Time where
  "ex_timeMax = \<lparr>unixNano = 20233 * nsPerDay + 86399 * nsPerSecond, zoneOffset = 0\<rparr>"

text \<open>
  A world for \<open>getToken\<close>: the keyring holds a token that expires at the start of
  2025-05-14, the clock stands a day before that, and the browser comes back with the
  right state and a code that the provider exchanges for a new token. \<open>ex_later\<close> is
  the instant of the expiry, and in \<open>ex_mismatch\<close> the callback carries another state.
\<close>

definition ex_cached :: Token where
  "ex_cached =
     \<lparr>AccessToken = ''ya29.cached'', TokenType = ''Bearer'', RefreshToken = ''1//cached'',
      Expiry = \<lparr>unixNano = 20222 * nsPerDay, zoneOffset = 0\<rparr>\<rparr>"

definition ex_issued :: Token where
  "ex_issued =
     \<lparr>AccessToken = ''ya29.issued'', TokenType = ''Bearer'', RefreshToken = ''1//issued'',
      Expiry = \<lparr>unixNano = 20223 * nsPerDay, zoneOffset = 0\<rparr>\<rparr>"

definition ex_keyring :: keyring where
  "ex_keyring k = (if k = (serviceName, tokenKey) then Some ''{cached}'' else None)"

definition ex_world :: World where
  "ex_world =
     \<lparr>randomState = Some ''nonce'',
      decodeToken = (\<lambda>json. if json = ''{cached}'' then Some ex_cached else None),
      clock = \<lparr>unixNano = 20221 * nsPerDay, zoneOffset = 0\<rparr>,
      freePort = Some 49152,
      browserOpens = True,
      firstEvent = Some (Callback \<lparr>query_state = ''nonce'', query_code = ''4/0Ab''\<rparr>),
      exchange = (\<lambda>code. if code = ''4/0Ab'' then Some ex_issued else None),
      encodeToken = (\<lambda>tok. Some ''{issued}''),
      keyringSetOk = True\<rparr>"

definition ex_later :: Time where
  "ex_later = \<lparr>unixNano = 20222 * nsPerDay, zoneOffset = 0\<rparr>"

definition ex_mismatch :: World where
  "ex_mismatch =
     ex_world\<lparr>clock := ex_later,
              firstEvent := Some (Callback \<lparr>query_state = ''forged'', query_code = ''4/0Ab''\<rparr>)\<rparr>"






declare toMonday.simps [simp del]
declare toSunday.simps [simp del]
declare markDays.simps [simp del]
declare printWeeks.simps [simp del]

section \<open>Properties\<close>

lemma nsPerDay_pos: "0 < nsPerDay"
  by (simp add: nsPerDay_def nsPerSecond_def)

text \<open>
  C10. When the environment variable CALENDAR\_TIMEZONE is set to a non-empty value,
  \<open>parseFlags\<close> returns a configuration whose time zone is that value, whatever the
  system's local zone is and whatever \<open>--timezone\<close> gave; and \<open>parseFlags\<close> does
  return a configuration whenever the local zone could be loaded.
\<close>

theorem C10_env_timezone_wins:
  assumes "env_tz \<noteq> []"
  shows "\<exists>kr' out. parseFlags (Some tzname) fl env_tz kr
           = Inr (\<lparr>WeeksAhead = (case weeks fl of None \<Rightarrow> 8 | Some w \<Rightarrow> w),
                    MinDuration = (case min_duration fl of None \<Rightarrow> 24 * 3600 * nsPerSecond | Some d \<Rightarrow> d),
                    TimeZone = env_tz\<rparr>, kr', out)"
  using assms
  by (simp add: parseFlags_def Let_def split: prod.splits option.splits)

theorem C10_env_timezone_wins_witness:
  "''Asia/Tokyo'' \<noteq> [] \<and>
   (\<exists>kr' out. parseFlags (Some ''Europe/Amsterdam'')
        \<lparr>weeks = None, min_duration = None, timezone = Some ''America/New_York'',
         reset_secret = False, reset_token = False\<rparr> ''Asia/Tokyo'' (\<lambda>_. None)
      = Inr (\<lparr>WeeksAhead = 8, MinDuration = 24 * 3600 * nsPerSecond, TimeZone = ''Asia/Tokyo''\<rparr>,
             kr', out))"
  using C10_env_timezone_wins [of "''Asia/Tokyo''" "''Europe/Amsterdam''"
      "\<lparr>weeks = None, min_duration = None, timezone = Some ''America/New_York'',
        reset_secret = False, reset_token = False\<rparr>" "\<lambda>_. None"]
  by simp

subsection \<open>Days and weekdays\<close>


lemma mod7_pred: "(y::int) mod 7 \<noteq> 0 \<Longrightarrow> (y - 1) mod 7 = y mod 7 - 1"
proof -
  assume nz: "y mod 7 \<noteq> 0"
  have "0 \<le> y mod 7" "y mod 7 < 7" by simp_all
  with nz have r: "0 \<le> y mod 7 - 1" "y mod 7 - 1 < 7" by linarith+
  have "(y - 1) mod 7 = (y mod 7 - 1) mod 7" by (simp only: mod_diff_left_eq)
  also have "\<dots> = y mod 7 - 1" using r by (simp only: mod_pos_pos_trivial)
  finally show ?thesis .
qed

lemma not_Monday_iff: "Weekday t \<noteq> Monday \<longleftrightarrow> (localDay t + 3) mod 7 \<noteq> 0"
  unfolding Weekday_def Monday_def by presburger

lemma not_Sunday_iff: "Weekday t \<noteq> Sunday \<longleftrightarrow> (- (localDay t + 4)) mod 7 \<noteq> 0"
  unfolding Weekday_def Sunday_def by presburger

lemma localDay_AddDate_days: "localDay (AddDate_days t n) = localDay t + n"
proof -
  have "(unixNano t + zoneOffset t + n * nsPerDay) div nsPerDay
          = (unixNano t + zoneOffset t) div nsPerDay + n"
    using nsPerDay_pos by simp
  then show ?thesis
    by (simp add: localDay_def AddDate_days_def algebra_simps)
qed

lemma AddDate_days_0: "AddDate_days t 0 = t"
  by (simp add: AddDate_days_def)

lemma AddDate_days_add: "AddDate_days (AddDate_days t a) b = AddDate_days t (a + b)"
  by (simp add: AddDate_days_def algebra_simps)

lemma toMonday_eq: "toMonday t = AddDate_days t (- ((localDay t + 3) mod 7))"
proof (induction t rule: toMonday.induct)
  case (1 t)
  show ?case
  proof (cases "Weekday t = Monday")
    case True
    then have "(localDay t + 3) mod 7 = 0"
      using not_Monday_iff [of t] by simp
    with True show ?thesis
      by (subst toMonday.simps) (simp add: AddDate_days_0)
  next
    case False
    then have nz: "(localDay t + 3) mod 7 \<noteq> 0"
      by (simp add: not_Monday_iff)
    have "localDay t - 1 + 3 = localDay t + 3 - 1"
      by simp
    then have pred: "(localDay t - 1 + 3) mod 7 = (localDay t + 3) mod 7 - 1"
      using mod7_pred [OF nz] by simp
    have "toMonday t = toMonday (AddDate_days t (- 1))"
      using False by (subst toMonday.simps) simp
    also have "\<dots> = AddDate_days (AddDate_days t (- 1)) (- ((localDay t - 1 + 3) mod 7))"
      using "1.IH" [OF False] by (simp add: localDay_AddDate_days)
    also have "\<dots> = AddDate_days t (- 1 - (localDay t - 1 + 3) mod 7)"
      by (simp add: AddDate_days_add)
    also have "- 1 - (localDay t - 1 + 3) mod 7 = - ((localDay t + 3) mod 7)"
      using pred by linarith
    finally show ?thesis .
  qed
qed

lemma toSunday_eq: "toSunday t = AddDate_days t ((- (localDay t + 4)) mod 7)"
proof (induction t rule: toSunday.induct)
  case (1 t)
  show ?case
  proof (cases "Weekday t = Sunday")
    case True
    then have "(- (localDay t + 4)) mod 7 = 0"
      using not_Sunday_iff [of t] by simp
    with True show ?thesis
      by (subst toSunday.simps) (simp add: AddDate_days_0)
  next
    case False
    then have nz: "(- (localDay t + 4)) mod 7 \<noteq> 0"
      by (simp add: not_Sunday_iff)
    have "- (localDay t + 1 + 4) = - (localDay t + 4) - 1"
      by simp
    then have pred: "(- (localDay t + 1 + 4)) mod 7 = (- (localDay t + 4)) mod 7 - 1"
      using mod7_pred [OF nz] by simp
    have "toSunday t = toSunday (AddDate_days t 1)"
      using False by (subst toSunday.simps) simp
    also have "\<dots> = AddDate_days (AddDate_days t 1) ((- (localDay t + 1 + 4)) mod 7)"
      using "1.IH" [OF False] by (simp add: localDay_AddDate_days)
    also have "\<dots> = AddDate_days t (1 + (- (localDay t + 1 + 4)) mod 7)"
      by (simp add: AddDate_days_add)
    also have "1 + (- (localDay t + 1 + 4)) mod 7 = (- (localDay t + 4)) mod 7"
      using pred by linarith
    finally show ?thesis .
  qed
qed


lemma Weekday_AddDate_days: "Weekday (AddDate_days t n) = (localDay t + n + 4) mod 7"
  by (simp add: Weekday_def localDay_AddDate_days)

lemma localDay_utc: "localDay \<lparr>unixNano = d * nsPerDay + r, zoneOffset = 0\<rparr> = d + r div nsPerDay"
  using nsPerDay_pos by (simp add: localDay_def)

text \<open>Within the range of a \<open>Time\<close> nothing wraps around.\<close>

lemma wrapInt64_id: "- (2 ^ 63) \<le> x \<Longrightarrow> x < 2 ^ 63 \<Longrightarrow> wrapInt64 x = x"
proof -
  assume a: "- (2 ^ 63) \<le> x" "x < 2 ^ 63"
  have "0 \<le> x + 2 ^ 63" "x + 2 ^ 63 < 2 ^ 64"
    using a by simp_all
  then have "(x + 2 ^ 63) mod 2 ^ 64 = x + 2 ^ 63"
    by (rule mod_pos_pos_trivial)
  then show ?thesis
    by (simp add: wrapInt64_def)
qed

lemma wrapTime_days:
  assumes "- 100000000000000 \<le> d" and "d \<le> 100000000000000"
  shows "wrapTime \<lparr>unixNano = d * nsPerDay, zoneOffset = z\<rparr> = \<lparr>unixNano = d * nsPerDay, zoneOffset = z\<rparr>"
proof -
  have dv: "(d * nsPerDay) div nsPerSecond = d * 86400" and md: "(d * nsPerDay) mod nsPerSecond = 0"
    by (simp_all add: nsPerDay_def nsPerSecond_def)
  have "- (2 ^ 63) \<le> d * 86400 + unixToInternal" "d * 86400 + unixToInternal < 2 ^ 63"
    using assms by (simp_all add: unixToInternal_def)
  then have "wrapInt64 (d * 86400 + unixToInternal) = d * 86400 + unixToInternal"
    by (rule wrapInt64_id)
  then show ?thesis
    by (simp add: wrapTime_def dv md) (simp add: nsPerDay_def)
qed

lemma queryWindow_eq:
  assumes now: "- (2 ^ 63) \<le> nowNano" "nowNano < 2 ^ 63"
    and n: "- 10000000000000 \<le> n" "n \<le> 10000000000000"
  shows "queryWindow nowNano n =
     (let m = nowNano div nsPerDay - (nowNano div nsPerDay + 3) mod 7
      in (\<lparr>unixNano = m * nsPerDay, zoneOffset = 0\<rparr>,
          \<lparr>unixNano = (m + n * 7 + 6) * nsPerDay + 86399 * nsPerSecond, zoneOffset = 0\<rparr>))"
proof -
  define D where "D = nowNano div nsPerDay"
  define m where "m = D - (D + 3) mod 7"
  define now0 where "now0 = \<lparr>unixNano = nowNano, zoneOffset = 0\<rparr>"
  have "- 106752 \<le> D" "D \<le> 106751"
    using now by (simp_all add: D_def nsPerDay_def nsPerSecond_def)
  moreover have "0 \<le> (D + 3) mod 7" "(D + 3) mod 7 < 7"
    by simp_all
  ultimately have mb: "- 106758 \<le> m" "m \<le> 106751"
    by (simp_all add: m_def)
  have d0: "localDay now0 = D"
    by (simp add: localDay_def now0_def D_def)
  have m1: "toMonday now0 = \<lparr>unixNano = nowNano - ((D + 3) mod 7) * nsPerDay, zoneOffset = 0\<rparr>"
    by (simp add: toMonday_eq d0) (simp add: AddDate_days_def now0_def)
  have d1: "localDay (toMonday now0) = m"
    by (simp add: toMonday_eq localDay_AddDate_days d0 m_def)
  define now2 where "now2 = Date_of (toMonday now0) 0 0 0"
  have "now2 = (toMonday now0)\<lparr>unixNano := m * nsPerDay - zoneOffset (toMonday now0)\<rparr>"
    unfolding now2_def Date_of_def d1 by simp
  then have now2: "now2 = \<lparr>unixNano = m * nsPerDay, zoneOffset = 0\<rparr>"
    by (simp add: m1)
  have prod: "wrapInt64 (n * 7) = n * 7"
    using n by (intro wrapInt64_id) simp_all
  define end0 where "end0 = wrapTime (AddDate_days now2 (wrapInt64 (n * 7)))"
  have "AddDate_days now2 (wrapInt64 (n * 7)) = \<lparr>unixNano = (m + n * 7) * nsPerDay, zoneOffset = 0\<rparr>"
    by (simp add: prod now2 AddDate_days_def algebra_simps)
  moreover have "- 100000000000000 \<le> m + n * 7" "m + n * 7 \<le> 100000000000000"
    using mb n by simp_all
  ultimately have e0: "end0 = \<lparr>unixNano = (m + n * 7) * nsPerDay, zoneOffset = 0\<rparr>"
    by (simp add: end0_def wrapTime_days)
  have de0: "localDay end0 = m + n * 7"
    using localDay_utc [of "m + n * 7" 0] by (simp add: e0)
  have "(m + 3) mod 7 = 0"
    unfolding m_def by presburger
  then have "(- (m + n * 7 + 4)) mod 7 = 6"
    by presburger
  then have e1: "toSunday end0 = \<lparr>unixNano = (m + n * 7 + 6) * nsPerDay, zoneOffset = 0\<rparr>"
    by (simp add: toSunday_eq de0) (simp add: e0 AddDate_days_def algebra_simps)
  have de1: "localDay (toSunday end0) = m + n * 7 + 6"
    using localDay_utc [of "m + n * 7 + 6" 0] by (simp add: e1)
  have "Date_of (toSunday end0) 23 59 59
          = (toSunday end0)\<lparr>unixNano := (m + n * 7 + 6) * nsPerDay + 86399 * nsPerSecond
                                   - zoneOffset (toSunday end0)\<rparr>"
    unfolding Date_of_def de1 by simp
  then have e2: "Date_of (toSunday end0) 23 59 59
              = \<lparr>unixNano = (m + n * 7 + 6) * nsPerDay + 86399 * nsPerSecond, zoneOffset = 0\<rparr>"
    by (simp add: e1)
  show ?thesis
    unfolding queryWindow_def Let_def
    using now2 e2 by (simp add: now2_def end0_def now0_def D_def m_def)
qed


subsection \<open>The minimum duration\<close>

lemma Sub_exact:
  "minDuration64 \<le> unixNano t - unixNano u \<Longrightarrow> unixNano t - unixNano u \<le> maxDuration64
   \<Longrightarrow> Sub t u = unixNano t - unixNano u"
  by (simp add: Sub_def Let_def)




subsection \<open>The query window\<close>

text \<open>
  C3, as amended. For every instant \<open>now\<close> that \<open>UnixNano\<close> can hold and every count
  \<open>n\<close> of weeks of at most ten million million either way, the window that \<open>main\<close>
  computes is in UTC, whatever the configured time zone: its start is 00:00 of the Monday
  at or before \<open>now\<close> (so \<open>start \<le> now < start + 7 days\<close>), its end is 23:59:59 of
  the Sunday six days after \<open>start + n\<close> weeks, and the start is before the end when
  \<open>n\<close> is not negative.
\<close>

theorem C3_query_window:
  assumes now: "- (2 ^ 63) \<le> nowNano" "nowNano < 2 ^ 63"
    and n: "- 10000000000000 \<le> n" "n \<le> 10000000000000"
  shows "case queryWindow nowNano n of
     (start, stop) \<Rightarrow>
       zoneOffset start = 0 \<and> zoneOffset stop = 0 \<and>
       Weekday start = Monday \<and> unixNano start = localDay start * nsPerDay \<and>
       unixNano start \<le> nowNano \<and> nowNano < unixNano start + 7 * nsPerDay \<and>
       Weekday stop = Sunday \<and>
       unixNano stop = localDay stop * nsPerDay + 86399 * nsPerSecond \<and>
       localDay stop = localDay start + n * 7 + 6 \<and>
       (0 \<le> n \<longrightarrow> Before start stop)"
proof -
  define D where "D = nowNano div nsPerDay"
  define m where "m = D - (D + 3) mod 7"
  define start where "start = \<lparr>unixNano = m * nsPerDay, zoneOffset = 0\<rparr>"
  define stop where
    "stop = \<lparr>unixNano = (m + n * 7 + 6) * nsPerDay + 86399 * nsPerSecond, zoneOffset = 0\<rparr>"
  have qw: "queryWindow nowNano n = (start, stop)"
    by (simp add: queryWindow_eq [OF now n] Let_def start_def stop_def m_def D_def)
  have ds: "localDay start = m"
    using localDay_utc [of m 0] by (simp add: start_def)
  have "(86399 * nsPerSecond) div nsPerDay = 0"
    by (simp add: nsPerDay_def nsPerSecond_def)
  then have de: "localDay stop = m + n * 7 + 6"
    using localDay_utc [of "m + n * 7 + 6" "86399 * nsPerSecond"] by (simp add: stop_def)
  have m3: "(m + 3) mod 7 = 0"
    unfolding m_def by presburger
  then have wd1: "(m + 4) mod 7 = 1"
    by presburger
  from m3 have wd2: "(m + n * 7 + 6 + 4) mod 7 = 0"
    by presburger
  have "0 \<le> (D + 3) mod 7" "(D + 3) mod 7 < 7"
    by simp_all
  then have mD: "m \<le> D" "D < m + 7"
    by (simp_all add: m_def)
  have split: "D * nsPerDay + nowNano mod nsPerDay = nowNano"
    unfolding D_def by (rule div_mult_mod_eq)
  have rem: "0 \<le> nowNano mod nsPerDay" "nowNano mod nsPerDay < nsPerDay"
    using nsPerDay_pos by simp_all
  have "D * nsPerDay \<le> nowNano"
    using split rem by linarith
  moreover have "m * nsPerDay \<le> D * nsPerDay"
    using mD(1) nsPerDay_pos by simp
  ultimately have lo: "m * nsPerDay \<le> nowNano"
    by linarith
  have "nowNano < D * nsPerDay + nsPerDay"
    using split rem by linarith
  then have "nowNano < (D + 1) * nsPerDay"
    by (simp add: algebra_simps)
  moreover have "(D + 1) * nsPerDay \<le> (m + 7) * nsPerDay"
    using mD(2) nsPerDay_pos by simp
  ultimately have hi: "nowNano < m * nsPerDay + 7 * nsPerDay"
    by (simp add: algebra_simps)
  have order: "0 \<le> n \<Longrightarrow> m * nsPerDay < (m + n * 7 + 6) * nsPerDay + 86399 * nsPerSecond"
  proof -
    assume "0 \<le> n"
    then have "m \<le> m + n * 7 + 6" by simp
    then have "m * nsPerDay \<le> (m + n * 7 + 6) * nsPerDay"
      using nsPerDay_pos by simp
    moreover have "0 < 86399 * nsPerSecond"
      by (simp add: nsPerSecond_def)
    ultimately show ?thesis by linarith
  qed
  have ws: "Weekday start = Monday"
    unfolding Weekday_def ds Monday_def by (rule wd1)
  have we: "Weekday stop = Sunday"
    unfolding Weekday_def de Sunday_def by (rule wd2)
  have us: "unixNano start = m * nsPerDay" "zoneOffset start = 0"
    by (simp_all add: start_def)
  have ue: "unixNano stop = (m + n * 7 + 6) * nsPerDay + 86399 * nsPerSecond" "zoneOffset stop = 0"
    by (simp_all add: stop_def)
  show ?thesis
    unfolding qw
    using lo hi order
    by (simp add: ws we ds de us ue Before_def)
qed

theorem C3_query_window_witness:
  "- (2 ^ 63) \<le> 20222 * nsPerDay + 43200 * nsPerSecond \<and>
   20222 * nsPerDay + 43200 * nsPerSecond < 2 ^ 63 \<and>
   (- 10000000000000 :: int) \<le> 8 \<and> (8 :: int) \<le> 10000000000000 \<and> (0::int) \<le> 8 \<and>
   Weekday (fst (queryWindow (20222 * nsPerDay + 43200 * nsPerSecond) 8)) = Monday \<and>
   Weekday (snd (queryWindow (20222 * nsPerDay + 43200 * nsPerSecond) 8)) = Sunday \<and>
   Before (fst (queryWindow (20222 * nsPerDay + 43200 * nsPerSecond) 8))
          (snd (queryWindow (20222 * nsPerDay + 43200 * nsPerSecond) 8))"
proof -
  have now: "- (2 ^ 63) \<le> 20222 * nsPerDay + 43200 * nsPerSecond"
    "20222 * nsPerDay + 43200 * nsPerSecond < 2 ^ 63"
    by (simp_all add: nsPerDay_def nsPerSecond_def)
  have n: "(- 10000000000000 :: int) \<le> 8" "(8 :: int) \<le> 10000000000000"
    by simp_all
  from C3_query_window [OF now n] now n show ?thesis
    by (simp split: prod.splits)
qed

text \<open>
  C3 as stated fails, on Wednesday 2025-05-14 at 12:00 UTC. With eight weeks ahead the
  start of the window is before \<open>now\<close>, not at or after it; the end is after \<open>now\<close>
  plus eight weeks, not at or before it; and the start, midnight in UTC, is 09:00 in a
  configured zone nine hours east of UTC (Asia/Tokyo). With \<open>--weeks -1\<close> the end is
  before the start, and so it is with \<open>--weeks 1000000000000000\<close>, where the date of
  the end wraps around.
\<close>

theorem C3_window_counterexample:
  "unixNano (fst (queryWindow (20222 * nsPerDay + 43200 * nsPerSecond) 8))
     < 20222 * nsPerDay + 43200 * nsPerSecond \<and>
   20222 * nsPerDay + 43200 * nsPerSecond + 8 * 7 * nsPerDay
     < unixNano (snd (queryWindow (20222 * nsPerDay + 43200 * nsPerSecond) 8)) \<and>
   (unixNano (fst (queryWindow (20222 * nsPerDay + 43200 * nsPerSecond) 8))
      + 9 * 3600 * nsPerSecond) mod nsPerDay = 9 * 3600 * nsPerSecond \<and>
   Before (snd (queryWindow (20222 * nsPerDay + 43200 * nsPerSecond) (- 1)))
          (fst (queryWindow (20222 * nsPerDay + 43200 * nsPerSecond) (- 1))) \<and>
   Before (snd (queryWindow (20222 * nsPerDay + 43200 * nsPerSecond) 1000000000000000))
          (fst (queryWindow (20222 * nsPerDay + 43200 * nsPerSecond) 1000000000000000))"
  by code_simp

subsection \<open>The two conversions of an event's times\<close>

lemma filterEvents_filter:
  "filterEvents pS pD loc m acc items =
     acc @ filter (\<lambda>e. case (filter_eventTime pS pD loc (Start e), filter_eventTime pS pD loc (End e)) of
                           (Some s, Some t) \<Rightarrow> m \<le> Sub t s
                         | _ \<Rightarrow> False) items"
  by (induction items arbitrary: acc) (auto split: option.splits)

lemma addEvents_snoc:
  "addEvents pS pD person (events @ [e]) g =
     (case (display_eventTime pS pD (Start e), display_eventTime pS pD (End e)) of
        (Some s, Some t) \<Rightarrow> markDays person s t (addEvents pS pD person events g)
      | _ \<Rightarrow> addEvents pS pD person events g)"
  by (induction events arbitrary: g) (auto split: option.splits)

lemma groupByDate_snoc:
  "groupByDate pS pD (entries @ [(person, events)]) g =
     addEvents pS pD person events (groupByDate pS pD entries g)"
  by (induction entries arbitrary: g) auto

lemma buildGrid_snoc:
  "buildGrid pS pD (entries @ [(person, events)]) =
     addEvents pS pD person events (buildGrid pS pD entries)"
  by (simp add: buildGrid_def groupByDate_snoc)


text \<open>
  C4, as amended. The start and the end of every fetched event are converted one by one.
  A timed one (non-empty \<open>DateTime\<close>) is parsed directly from its timestamp, by
  \<open>getOutOfOfficeEvents\<close> and by \<open>displayCalendar\<close> alike. An all-day date is
  converted by \<open>getOutOfOfficeEvents\<close> to what \<open>time.Date\<close> makes of 00:00:00 of
  the date in the configured zone, but by \<open>displayCalendar\<close> to 00:00:00 of the date
  in UTC. \<open>getOutOfOfficeEvents\<close> keeps the events whose times by the first conversion
  are at least \<open>minDuration\<close> apart, and \<open>displayCalendar\<close> marks the days of each
  event from its times by the second. What \<open>time.Date\<close> makes of 00:00:00 in the zone
  is the midnight of the date there, by the offset found for it, whenever that instant
  lies in the period of the offset.
\<close>

theorem C4_event_times:
  "(let zoned = (\<lambda>d. \<lparr>unixNano = Date_in loc (d * 86400) * nsPerSecond,
                        zoneOffset = fst (loc (Date_in loc (d * 86400))) * nsPerSecond\<rparr>);
        utc = (\<lambda>d. \<lparr>unixNano = d * nsPerDay, zoneOffset = 0\<rparr>);
        filtered = (\<lambda>edt. if DateTime edt \<noteq> [] then pS (DateTime edt)
                           else map_option zoned (pD (Date edt)));
        displayed = (\<lambda>edt. if DateTime edt \<noteq> [] then pS (DateTime edt)
                            else map_option utc (pD (Date edt)))
    in getOutOfOfficeEvents pS pD (Some items) (Some loc) m
         = Inr (filter (\<lambda>e. case (filtered (Start e), filtered (End e)) of
                              (Some s, Some t) \<Rightarrow> m \<le> Sub t s
                            | _ \<Rightarrow> False) items) \<and>
       buildGrid pS pD (entries @ [(person, events @ [e])])
         = (case (displayed (Start e), displayed (End e)) of
              (Some s, Some t) \<Rightarrow> markDays person s t (buildGrid pS pD (entries @ [(person, events)]))
            | _ \<Rightarrow> buildGrid pS pD (entries @ [(person, events)]))) \<and>
   (case loc (d * 86400) of
      (offset, start, stop) \<Rightarrow>
        start \<le> d * 86400 - offset \<and> d * 86400 - offset < stop
        \<longrightarrow> Date_in loc (d * 86400) = d * 86400 - offset)"
proof -
  have f: "filter_eventTime pS pD loc =
      (\<lambda>edt. if DateTime edt \<noteq> [] then pS (DateTime edt)
              else map_option (\<lambda>d. \<lparr>unixNano = Date_in loc (d * 86400) * nsPerSecond,
                        zoneOffset = fst (loc (Date_in loc (d * 86400))) * nsPerSecond\<rparr>)
                     (pD (Date edt)))"
    by (rule ext) (simp add: filter_eventTime_def ParseInLocation_date_def Let_def split: option.splits)
  have g: "display_eventTime pS pD =
      (\<lambda>edt. if DateTime edt \<noteq> [] then pS (DateTime edt)
              else map_option (\<lambda>d. \<lparr>unixNano = d * nsPerDay, zoneOffset = 0\<rparr>) (pD (Date edt)))"
    by (rule ext) (simp add: display_eventTime_def Parse_date_def split: option.splits)
  have a: "getOutOfOfficeEvents pS pD (Some items) (Some loc) m
         = Inr (filter (\<lambda>e. case (filter_eventTime pS pD loc (Start e), filter_eventTime pS pD loc (End e)) of
                              (Some s, Some t) \<Rightarrow> m \<le> Sub t s
                            | _ \<Rightarrow> False) items)"
    by (simp add: getOutOfOfficeEvents_def filterEvents_filter)
  have b: "buildGrid pS pD (entries @ [(person, events @ [e])])
         = (case (display_eventTime pS pD (Start e), display_eventTime pS pD (End e)) of
              (Some s, Some t) \<Rightarrow> markDays person s t (buildGrid pS pD (entries @ [(person, events)]))
            | _ \<Rightarrow> buildGrid pS pD (entries @ [(person, events)]))"
    by (simp only: buildGrid_snoc addEvents_snoc)
  have c: "case loc (d * 86400) of
      (offset, start, stop) \<Rightarrow>
        start \<le> d * 86400 - offset \<and> d * 86400 - offset < stop
        \<longrightarrow> Date_in loc (d * 86400) = d * 86400 - offset"
    by (auto simp: Date_in_def Let_def split: prod.splits)
  from a b c show ?thesis
    unfolding Let_def f g by blast
qed


theorem C4_event_times_witness:
  "ex_amsterdam (20177 * 86400) = (3600, 20023 * 86400 + 3600, 20177 * 86400 + 3600) \<and>
   (20023 * 86400 + 3600 :: int) \<le> 20177 * 86400 - 3600 \<and>
   (20177 * 86400 - 3600 :: int) < 20177 * 86400 + 3600 \<and>
   Date_in ex_amsterdam (20177 * 86400) = 20177 * 86400 - 3600 \<and>
   getOutOfOfficeEvents ex_parseStamp ex_parseDay
     (Some [timed ''2025-05-16T17:00:00Z'' ''2025-05-19T09:00:00Z'',
            allDay ''2025-03-30'' ''2025-03-31''])
     (Some ex_amsterdam) (24 * 3600 * nsPerSecond)
     = Inr [timed ''2025-05-16T17:00:00Z'' ''2025-05-19T09:00:00Z''] \<and>
   buildGrid ex_parseStamp ex_parseDay
     ([] @ [(''jenny@example.com'', [] @ [allDay ''2025-03-30'' ''2025-03-31''])])
     = markDays ''jenny@example.com''
         \<lparr>unixNano = 20177 * nsPerDay, zoneOffset = 0\<rparr>
         \<lparr>unixNano = 20178 * nsPerDay, zoneOffset = 0\<rparr>
         (buildGrid ex_parseStamp ex_parseDay ([] @ [(''jenny@example.com'', [])]))"
proof -
  from C4_event_times [where loc = ex_amsterdam and pS = ex_parseStamp and pD = ex_parseDay
      and items = "[timed ''2025-05-16T17:00:00Z'' ''2025-05-19T09:00:00Z'',
                    allDay ''2025-03-30'' ''2025-03-31'']"
      and m = "24 * 3600 * nsPerSecond" and entries = "[]" and person = "''jenny@example.com''"
      and events = "[]" and e = "allDay ''2025-03-30'' ''2025-03-31''" and d = 20177]
  show ?thesis
    by (simp add: Let_def Date_in_def ex_amsterdam_def Sub_def minDuration64_def maxDuration64_def
          timed_def allDay_def ex_parseStamp_def ex_parseDay_def nsPerSecond_def nsPerDay_def)
qed

text \<open>
  C4 as stated fails: with Europe/Amsterdam configured, the all-day event of Sunday
  2025-03-30, when the clocks go forward, starts and ends for the filter an hour and two
  hours before it does for the grid. The filter finds 23 hours and drops the event at the
  default minimum of 24 hours; converted as for the grid (midnights in UTC) it lasts 24
  hours and is kept. And with America/Santiago configured, where the clocks skip the
  midnight of 2025-09-07, the filter takes that all-day date to begin at 23:00 of the
  day before.
\<close>

theorem C4_all_day_counterexample:
  "filter_eventTime ex_parseStamp ex_parseDay ex_amsterdam (Start (allDay ''2025-03-30'' ''2025-03-31''))
     = Some \<lparr>unixNano = (20177 * 86400 - 3600) * nsPerSecond, zoneOffset = 3600 * nsPerSecond\<rparr> \<and>
   display_eventTime ex_parseStamp ex_parseDay (Start (allDay ''2025-03-30'' ''2025-03-31''))
     = Some \<lparr>unixNano = 20177 * 86400 * nsPerSecond, zoneOffset = 0\<rparr> \<and>
   filter_eventTime ex_parseStamp ex_parseDay ex_amsterdam (End (allDay ''2025-03-30'' ''2025-03-31''))
     = Some \<lparr>unixNano = (20178 * 86400 - 7200) * nsPerSecond, zoneOffset = 7200 * nsPerSecond\<rparr> \<and>
   display_eventTime ex_parseStamp ex_parseDay (End (allDay ''2025-03-30'' ''2025-03-31''))
     = Some \<lparr>unixNano = 20178 * 86400 * nsPerSecond, zoneOffset = 0\<rparr> \<and>
   getOutOfOfficeEvents ex_parseStamp ex_parseDay (Some [allDay ''2025-03-30'' ''2025-03-31''])
     (Some ex_amsterdam) (24 * 3600 * nsPerSecond) = Inr [] \<and>
   getOutOfOfficeEvents ex_parseStamp ex_parseDay (Some [allDay ''2025-03-30'' ''2025-03-31''])
     (Some UTC) (24 * 3600 * nsPerSecond) = Inr [allDay ''2025-03-30'' ''2025-03-31''] \<and>
   filter_eventTime ex_parseStamp ex_parseDay ex_santiago \<lparr>DateTime = [], Date = ''2025-09-07''\<rparr>
     = Some \<lparr>unixNano = (20338 * 86400 + 10800) * nsPerSecond, zoneOffset = - 14400 * nsPerSecond\<rparr> \<and>
   localDay \<lparr>unixNano = (20338 * 86400 + 10800) * nsPerSecond, zoneOffset = - 14400 * nsPerSecond\<rparr>
     = 20337"
  by code_simp

subsection \<open>The week blocks\<close>

lemma finite_markDays:
  "\<forall>k. finite (g k) \<Longrightarrow> \<forall>k. finite (markDays person d stop g k)"
proof (induction person d stop g rule: markDays.induct)
  case (1 person d stop g)
  show ?case
  proof (cases "Before d stop")
    case True
    have "\<forall>k. finite (markDays person (AddDate_days d 1) stop
                    (g(Format_date d := insert person (g (Format_date d)))) k)"
      using True "1.prems" by (intro "1.IH") simp_all
    with True show ?thesis
      by (subst markDays.simps) simp
  next
    case False
    with "1.prems" show ?thesis
      by (subst markDays.simps) simp
  qed
qed

lemma finite_addEvents:
  "\<forall>k. finite (g k) \<Longrightarrow> \<forall>k. finite (addEvents pS pD person events g k)"
proof (induction events arbitrary: g)
  case Nil
  then show ?case by simp
next
  case (Cons event events)
  show ?case
  proof (cases "display_eventTime pS pD (Start event)")
    case None
    then show ?thesis using Cons by simp
  next
    case (Some start)
    note st = this
    show ?thesis
    proof (cases "display_eventTime pS pD (End event)")
      case None
      then show ?thesis using st Cons by simp
    next
      case (Some stop)
      have "\<forall>k. finite (markDays person start stop g k)"
        using Cons.prems by (rule finite_markDays)
      then have "\<forall>k. finite (addEvents pS pD person events (markDays person start stop g) k)"
        by (rule Cons.IH)
      then show ?thesis using st Some by simp
    qed
  qed
qed

lemma finite_groupByDate:
  "\<forall>k. finite (g k) \<Longrightarrow> \<forall>k. finite (groupByDate pS pD entries g k)"
proof (induction entries arbitrary: g)
  case Nil
  then show ?case by simp
next
  case (Cons entry entries)
  obtain person events where entry: "entry = (person, events)"
    by (cases entry)
  have "\<forall>k. finite (addEvents pS pD person events g k)"
    using Cons.prems by (rule finite_addEvents)
  then have "\<forall>k. finite (groupByDate pS pD entries (addEvents pS pD person events g) k)"
    by (rule Cons.IH)
  then show ?case by (simp add: entry)
qed

lemma finite_buildGrid: "finite (buildGrid pS pD entries k)"
proof -
  have "\<forall>k. finite (groupByDate pS pD entries (\<lambda>dateKey. {}) k)"
    by (rule finite_groupByDate) simp
  then show ?thesis by (simp add: buildGrid_def)
qed

lemma fold_union: "fold (\<lambda>i acc. acc \<union> f i) xs A = A \<union> (\<Union>i\<in>set xs. f i)"
  by (induction xs arbitrary: A) auto

lemma peopleThisWeek_eq:
  "peopleThisWeek g cur = {p. \<exists>i\<in>{0..<7::nat}. p \<in> g (localDay cur + int i)}"
  unfolding peopleThisWeek_def fold_union Format_date_def
  by (auto simp: localDay_AddDate_days)

lemma printWeeks_blocks:
  "blk \<in> set (printWeeks g cur timeMax)
   \<Longrightarrow> \<exists>k::nat. blk = weekBlock g (AddDate_days cur (7 * int k))"
proof (induction g cur timeMax rule: printWeeks.induct)
  case (1 g cur timeMax)
  show ?case
  proof (cases "Before cur timeMax \<or> Equal cur timeMax")
    case False
    with "1.prems" show ?thesis
      by (subst (asm) printWeeks.simps) simp
  next
    case True
    with "1.prems" have
      "blk = weekBlock g cur \<or> blk \<in> set (printWeeks g (AddDate_days cur 7) timeMax)"
      by (subst (asm) printWeeks.simps) simp
    then show ?thesis
    proof
      assume "blk = weekBlock g cur"
      then have "blk = weekBlock g (AddDate_days cur (7 * int 0))"
        by (simp add: AddDate_days_0)
      then show ?thesis ..
    next
      assume "blk \<in> set (printWeeks g (AddDate_days cur 7) timeMax)"
      from "1.IH" [OF True this] obtain k :: nat
        where "blk = weekBlock g (AddDate_days (AddDate_days cur 7) (7 * int k))" ..
      then have "blk = weekBlock g (AddDate_days cur (7 * int (Suc k)))"
        by (simp add: AddDate_days_add algebra_simps)
      then show ?thesis ..
    qed
  qed
qed

text \<open>
  The run of the README: Jenny is out on Tuesday 2025-05-13 and Danny on Thursday
  2025-05-15; the first week lists both, Danny first, and the second week has no events.
\<close>

lemma ex_blocks:
  "displayBlocks ex_parseStamp ex_parseDay ex_team ex_timeMin ex_timeMax =
    [[Blank,
      Header \<lparr>unixNano = 20220 * nsPerDay, zoneOffset = 0\<rparr> \<lparr>unixNano = 20226 * nsPerDay, zoneOffset = 0\<rparr>,
      Rule,
      Row ''danny@example.com'' [False, False, False, True, False, False, False],
      Row ''jenny@example.com'' [False, True, False, False, False, False, False],
      Rule],
     [Blank,
      Header \<lparr>unixNano = 20227 * nsPerDay, zoneOffset = 0\<rparr> \<lparr>unixNano = 20233 * nsPerDay, zoneOffset = 0\<rparr>,
      Rule, NoOOOEvents, Rule]]"
  by code_simp

text \<open>
  C9. Every week block that \<open>displayCalendar\<close> prints starts a whole number of weeks
  after the Monday of \<open>timeMin\<close>. Its rows are one for each person with an entry in the
  grid on one of its seven days, each person once, in ascending lexicographic order of
  their names (the order of \<open>sort.Strings\<close>: characters compare by their codes); a row
  shows the person's name, cut to 17 characters and three dots when it is longer than 20,
  and for each of the seven days whether the person has an entry on it. When there is no
  such person the block has the line \<open>No OOO Events\<close> in place of the rows.
\<close>

theorem C9_week_block_people:
  assumes "blk \<in> set (displayBlocks pS pD entries timeMin timeMax)"
  shows "\<exists>k::nat.
           (let g = buildGrid pS pD entries;
                cur = AddDate_days (toMonday timeMin) (7 * int k);
                present = {p. \<exists>i\<in>{0..<7::nat}. p \<in> g (localDay cur + int i)};
                people = sorted_list_of_set present
            in finite present \<and> set people = present \<and> sorted people \<and> distinct people \<and>
               blk = [Blank, Header cur (AddDate_days cur 6), Rule]
                     @ (if present = {} then [NoOOOEvents]
                        else map (\<lambda>person.
                               Row (if 20 < length person then take 17 person @ ''...'' else person)
                                   (map (\<lambda>i. person \<in> g (localDay cur + int i)) [0..<7]))
                             people)
                     @ [Rule])"
proof -
  define g where "g = buildGrid pS pD entries"
  from assms obtain k :: nat
    where blk: "blk = weekBlock g (AddDate_days (toMonday timeMin) (7 * int k))"
    unfolding displayBlocks_def Let_def g_def by (auto dest: printWeeks_blocks)
  define cur where "cur = AddDate_days (toMonday timeMin) (7 * int k)"
  define present where "present = {p. \<exists>i\<in>{0..<7::nat}. p \<in> g (localDay cur + int i)}"
  have "present = (\<Union>i\<in>{0..<7::nat}. g (localDay cur + int i))"
    by (auto simp: present_def)
  then have fin: "finite present"
    by (simp add: g_def finite_buildGrid)
  have ptw: "peopleThisWeek g cur = present"
    by (simp add: peopleThisWeek_eq present_def)
  have sp: "sortedPeople g cur = sorted_list_of_set present"
    by (simp add: sortedPeople_def ptw)
  have people: "set (sorted_list_of_set present) = present" "sorted (sorted_list_of_set present)"
    "distinct (sorted_list_of_set present)"
    using fin by simp_all
  have empty: "length (sorted_list_of_set present) = 0 \<longleftrightarrow> present = {}"
    using fin by simp
  have row: "personRow g cur =
      (\<lambda>person. Row (if 20 < length person then take 17 person @ ''...'' else person)
                     (map (\<lambda>i. person \<in> g (localDay cur + int i)) [0..<7]))"
    by (rule ext) (simp add: personRow_def displayName_def Format_date_def localDay_AddDate_days)
  have "blk = [Blank, Header cur (AddDate_days cur 6), Rule]
              @ (if present = {} then [NoOOOEvents]
                 else map (\<lambda>person.
                        Row (if 20 < length person then take 17 person @ ''...'' else person)
                            (map (\<lambda>i. person \<in> g (localDay cur + int i)) [0..<7]))
                      (sorted_list_of_set present))
              @ [Rule]"
    unfolding blk weekBlock_def Let_def cur_def [symmetric] sp empty row by simp
  with fin people show ?thesis
    unfolding g_def [symmetric] Let_def cur_def [symmetric] present_def [symmetric]
    by (intro exI [of _ k]) (simp add: cur_def [symmetric] present_def [symmetric])
qed

theorem C9_week_block_people_witness:
  "[Blank,
    Header \<lparr>unixNano = 20220 * nsPerDay, zoneOffset = 0\<rparr>
           \<lparr>unixNano = 20226 * nsPerDay, zoneOffset = 0\<rparr>,
    Rule,
    Row ''danny@example.com'' [False, False, False, True, False, False, False],
    Row ''jenny@example.com'' [False, True, False, False, False, False, False],
    Rule]
     \<in> set (displayBlocks ex_parseStamp ex_parseDay ex_team ex_timeMin ex_timeMax) \<and>
   (\<exists>k::nat.
      (let g = buildGrid ex_parseStamp ex_parseDay ex_team;
           cur = AddDate_days (toMonday ex_timeMin) (7 * int k);
           present = {p. \<exists>i\<in>{0..<7::nat}. p \<in> g (localDay cur + int i)};
           people = sorted_list_of_set present
       in finite present \<and> set people = present \<and> sorted people \<and> distinct people \<and>
          [Blank,
           Header \<lparr>unixNano = 20220 * nsPerDay, zoneOffset = 0\<rparr>
                  \<lparr>unixNano = 20226 * nsPerDay, zoneOffset = 0\<rparr>,
           Rule,
           Row ''danny@example.com'' [False, False, False, True, False, False, False],
           Row ''jenny@example.com'' [False, True, False, False, False, False, False],
           Rule]
            = [Blank, Header cur (AddDate_days cur 6), Rule]
              @ (if present = {} then [NoOOOEvents]
                 else map (\<lambda>person.
                        Row (if 20 < length person then take 17 person @ ''...'' else person)
                            (map (\<lambda>i. person \<in> g (localDay cur + int i)) [0..<7]))
                      people)
              @ [Rule]))"
proof -
  have blk: "[Blank,
      Header \<lparr>unixNano = 20220 * nsPerDay, zoneOffset = 0\<rparr>
             \<lparr>unixNano = 20226 * nsPerDay, zoneOffset = 0\<rparr>,
      Rule,
      Row ''danny@example.com'' [False, False, False, True, False, False, False],
      Row ''jenny@example.com'' [False, True, False, False, False, False, False],
      Rule]
       \<in> set (displayBlocks ex_parseStamp ex_parseDay ex_team ex_timeMin ex_timeMax)"
    by (simp add: ex_blocks)
  show ?thesis
    by (rule conjI [OF blk C9_week_block_people [OF blk]])
qed

subsection \<open>The presence grid\<close>

text \<open>
  What the loop over the days of one event does: it marks the date \<open>n\<close> days after
  the date of the start for every \<open>n\<close> such that the start plus \<open>n\<close> days is before
  the end. From a start at local midnight (every all-day event) these are the dates whose
  midnight is before the end, that is, every date that the event touches.
\<close>

lemma markDays_marks:
  "markDays person d stop g k =
     (if \<exists>n::nat. k = localDay d + int n \<and> unixNano d + int n * nsPerDay < unixNano stop
      then insert person (g k) else g k)"
proof (induction person d stop g rule: markDays.induct)
  case (1 person d stop g)
  define P where
    "P \<longleftrightarrow> (\<exists>n::nat. k = localDay d + int n \<and> unixNano d + int n * nsPerDay < unixNano stop)"
  have goal: "markDays person d stop g k = (if P then insert person (g k) else g k)"
  proof (cases "Before d stop")
    case False
    have "\<not> P"
    proof
      assume P
      then obtain n :: nat where "unixNano d + int n * nsPerDay < unixNano stop"
        unfolding P_def by blast
      moreover have "0 \<le> int n * nsPerDay"
        using nsPerDay_pos by simp
      ultimately show False
        using False by (simp add: Before_def)
    qed
    moreover have "markDays person d stop g = g"
      using False by (subst markDays.simps) simp
    ultimately show ?thesis
      by simp
  next
    case True
    define d' where "d' = AddDate_days d 1"
    define g' where "g' = g(Format_date d := insert person (g (Format_date d)))"
    define Q where
      "Q \<longleftrightarrow> (\<exists>n::nat. k = localDay d' + int n \<and> unixNano d' + int n * nsPerDay < unixNano stop)"
    have unf: "markDays person d stop g = markDays person d' stop g'"
      using True by (subst markDays.simps) (simp add: d'_def g'_def)
    have ih: "markDays person d' stop g' k = (if Q then insert person (g' k) else g' k)"
      unfolding d'_def g'_def Q_def by (rule "1.IH" [OF True])
    have ld: "localDay d' = localDay d + 1"
      by (simp add: d'_def localDay_AddDate_days)
    have un: "unixNano d' = unixNano d + nsPerDay"
      by (simp add: d'_def AddDate_days_def)
    have Q_iff: "Q \<longleftrightarrow> (\<exists>n::nat. k = localDay d + int (Suc n) \<and>
                              unixNano d + int (Suc n) * nsPerDay < unixNano stop)"
      unfolding Q_def by (simp add: ld un algebra_simps)
    show ?thesis
    proof (cases "k = localDay d")
      case here: True
      have "k = localDay d + int 0 \<and> unixNano d + int 0 * nsPerDay < unixNano stop"
        using here True by (simp add: Before_def)
      then have P
        unfolding P_def by blast
      moreover have "g' k = insert person (g k)"
        by (simp add: g'_def here Format_date_def)
      ultimately show ?thesis
        by (simp add: unf ih)
    next
      case away: False
      have gk: "g' k = g k"
        using away by (simp add: g'_def Format_date_def)
      have "Q \<longleftrightarrow> P"
      proof
        assume Q
        then show P
          unfolding Q_iff P_def by blast
      next
        assume P
        then obtain n :: nat
          where n: "k = localDay d + int n" "unixNano d + int n * nsPerDay < unixNano stop"
          unfolding P_def by blast
        with away have "n \<noteq> 0"
          by auto
        then obtain m where "n = Suc m"
          by (cases n) auto
        with n show Q
          unfolding Q_iff by blast
      qed
      with gk show ?thesis
        by (simp add: unf ih)
    qed
  qed
  then show ?case
    unfolding P_def .
qed

lemma markDays_from_midnight:
  assumes "unixNano d + zoneOffset d = localDay d * nsPerDay"
  shows "markDays person d stop g k =
     (if localDay d \<le> k \<and> k * nsPerDay - zoneOffset d < unixNano stop
      then insert person (g k) else g k)"
proof -
  have u: "unixNano d = localDay d * nsPerDay - zoneOffset d"
    using assms by simp
  have "(\<exists>n::nat. k = localDay d + int n \<and> unixNano d + int n * nsPerDay < unixNano stop)
        \<longleftrightarrow> localDay d \<le> k \<and> k * nsPerDay - zoneOffset d < unixNano stop"
  proof
    assume "\<exists>n::nat. k = localDay d + int n \<and> unixNano d + int n * nsPerDay < unixNano stop"
    then obtain n :: nat
      where n: "k = localDay d + int n" "unixNano d + int n * nsPerDay < unixNano stop"
      by blast
    have "k * nsPerDay - zoneOffset d = unixNano d + int n * nsPerDay"
      by (simp add: u n(1) algebra_simps)
    with n show "localDay d \<le> k \<and> k * nsPerDay - zoneOffset d < unixNano stop"
      by simp
  next
    assume a: "localDay d \<le> k \<and> k * nsPerDay - zoneOffset d < unixNano stop"
    define n where "n = nat (k - localDay d)"
    have k: "k = localDay d + int n"
      using a by (simp add: n_def)
    have "unixNano d + int n * nsPerDay = k * nsPerDay - zoneOffset d"
      by (simp add: u k algebra_simps)
    with a k show "\<exists>n::nat. k = localDay d + int n \<and> unixNano d + int n * nsPerDay < unixNano stop"
      by auto
  qed
  then show ?thesis
    by (simp only: markDays_marks)
qed

text \<open>
  C6 does not hold of the code. A timed event from Friday 2025-05-16 17:00 to Monday
  2025-05-19 09:00 (UTC) passes the filter of 24 hours; the grid marks Friday, Saturday
  and Sunday (days 20224 to 20226) and not Monday (day 20227), though the event is still
  on at Monday 00:00: the loop steps from the start by whole days and stops at the first
  step that is not before the end.
\<close>

theorem C6_last_day_not_marked:
  "getOutOfOfficeEvents ex_parseStamp ex_parseDay
     (Some [timed ''2025-05-16T17:00:00Z'' ''2025-05-19T09:00:00Z'']) (Some UTC)
     (24 * 3600 * nsPerSecond)
     = Inr [timed ''2025-05-16T17:00:00Z'' ''2025-05-19T09:00:00Z''] \<and>
   map (\<lambda>day. ''jenny@example.com'' \<in>
          buildGrid ex_parseStamp ex_parseDay
            [(''jenny@example.com'', [timed ''2025-05-16T17:00:00Z'' ''2025-05-19T09:00:00Z''])] day)
     [20223, 20224, 20225, 20226, 20227, 20228]
     = [False, True, True, True, False, False] \<and>
   Before \<lparr>unixNano = 20227 * nsPerDay, zoneOffset = 0\<rparr>
     \<lparr>unixNano = (20227 * 86400 + 9 * 3600) * nsPerSecond, zoneOffset = 0\<rparr>"
  by code_simp


subsection \<open>The token\<close>

lemma authorize_exchange:
  "Exchange code \<in> set (snd (authorize w state))
   \<Longrightarrow> \<exists>r. firstEvent w = Some (Callback r) \<and> query_state r = state \<and> query_code r = code"
  by (auto simp: authorize_def received_def handler_def Let_def
      split: option.splits event.splits message.splits if_splits)

lemma authorize_token:
  "fst (authorize w state) = Some (Inr tok)
   \<Longrightarrow> \<exists>code. Exchange code \<in> set (snd (authorize w state)) \<and> exchange w code = Some tok"
  by (auto simp: authorize_def Let_def split: option.splits message.splits if_splits)

lemma authorize_effects: "snd (authorize w state) \<noteq> []"
  by (auto simp: authorize_def Let_def split: option.splits message.splits if_splits)

lemma cachedToken_Some_iff:
  "cachedToken w kr = Some token \<longleftrightarrow>
     (\<exists>tokenJSON. kr (serviceName, tokenKey) = Some tokenJSON \<and>
        decodeToken w tokenJSON = Some token \<and>
        unixNano (clock w) < unixNano (Expiry token))"
  by (auto simp: cachedToken_def After_def split: option.splits)

text \<open>
  C1, as amended. Provided the state nonce was generated (\<open>getToken\<close> generates it
  before it looks at the keyring, and fails otherwise): when the keyring holds a token
  that decodes and whose expiry is strictly after the current time, \<open>getToken\<close> returns
  that token at once, with no effect on the outside world; in every other case, so for
  every token that has expired, it runs the authorization flow (it does not return at
  once), and a token it then returns is the answer of a token exchange it has made.
\<close>

theorem C1_cached_or_fresh:
  assumes "randomState w = Some state"
  shows "((\<exists>tokenJSON token.
             kr (serviceName, tokenKey) = Some tokenJSON \<and>
             decodeToken w tokenJSON = Some token \<and>
             unixNano (clock w) < unixNano (Expiry token))
          \<longrightarrow> (\<exists>tokenJSON token.
                 kr (serviceName, tokenKey) = Some tokenJSON \<and>
                 decodeToken w tokenJSON = Some token \<and>
                 getToken w kr = (Some (Inr token), []))) \<and>
         (\<not> (\<exists>tokenJSON token.
             kr (serviceName, tokenKey) = Some tokenJSON \<and>
             decodeToken w tokenJSON = Some token \<and>
             unixNano (clock w) < unixNano (Expiry token))
          \<longrightarrow> getToken w kr = authorize w state \<and>
              snd (getToken w kr) \<noteq> [] \<and>
              (\<forall>tok. fst (getToken w kr) = Some (Inr tok) \<longrightarrow>
                 (\<exists>code. Exchange code \<in> set (snd (getToken w kr)) \<and> exchange w code = Some tok)))"
proof -
  let ?usable = "\<exists>tokenJSON token.
             kr (serviceName, tokenKey) = Some tokenJSON \<and>
             decodeToken w tokenJSON = Some token \<and>
             unixNano (clock w) < unixNano (Expiry token)"
  have hit: "?usable \<longrightarrow> (\<exists>tokenJSON token.
                 kr (serviceName, tokenKey) = Some tokenJSON \<and>
                 decodeToken w tokenJSON = Some token \<and>
                 getToken w kr = (Some (Inr token), []))"
  proof
    assume ?usable
    then obtain tokenJSON token where
      c: "kr (serviceName, tokenKey) = Some tokenJSON" "decodeToken w tokenJSON = Some token"
         "unixNano (clock w) < unixNano (Expiry token)"
      by blast
    then have "cachedToken w kr = Some token"
      by (auto simp: cachedToken_Some_iff)
    then have "getToken w kr = (Some (Inr token), [])"
      using assms by (simp add: getToken_def)
    with c show "\<exists>tokenJSON token.
                   kr (serviceName, tokenKey) = Some tokenJSON \<and>
                   decodeToken w tokenJSON = Some token \<and>
                   getToken w kr = (Some (Inr token), [])"
      by blast
  qed
  have miss: "\<not> ?usable \<longrightarrow> getToken w kr = authorize w state \<and>
        snd (getToken w kr) \<noteq> [] \<and>
        (\<forall>tok. fst (getToken w kr) = Some (Inr tok) \<longrightarrow>
           (\<exists>code. Exchange code \<in> set (snd (getToken w kr)) \<and> exchange w code = Some tok))"
  proof
    assume n: "\<not> ?usable"
    have "cachedToken w kr = None"
    proof (cases "cachedToken w kr")
      case None
      then show ?thesis .
    next
      case (Some token)
      with n show ?thesis
        by (auto simp: cachedToken_Some_iff)
    qed
    then have g: "getToken w kr = authorize w state"
      using assms by (simp add: getToken_def)
    show "getToken w kr = authorize w state \<and>
          snd (getToken w kr) \<noteq> [] \<and>
          (\<forall>tok. fst (getToken w kr) = Some (Inr tok) \<longrightarrow>
             (\<exists>code. Exchange code \<in> set (snd (getToken w kr)) \<and> exchange w code = Some tok))"
      unfolding g using authorize_effects authorize_token by blast
  qed
  show ?thesis
    by (rule conjI [OF hit miss])
qed

theorem C1_cached_or_fresh_witness:
  "randomState ex_world = Some ''nonce'' \<and>
   getToken ex_world ex_keyring = (Some (Inr ex_cached), []) \<and>
   randomState (ex_world\<lparr>clock := ex_later\<rparr>) = Some ''nonce'' \<and>
   getToken (ex_world\<lparr>clock := ex_later\<rparr>) ex_keyring
     = authorize (ex_world\<lparr>clock := ex_later\<rparr>) ''nonce'' \<and>
   snd (getToken (ex_world\<lparr>clock := ex_later\<rparr>) ex_keyring) \<noteq> []"
proof -
  have rs: "randomState ex_world = Some ''nonce''"
    by (simp add: ex_world_def)
  have usable: "\<exists>tokenJSON token.
      ex_keyring (serviceName, tokenKey) = Some tokenJSON \<and>
      decodeToken ex_world tokenJSON = Some token \<and>
      unixNano (clock ex_world) < unixNano (Expiry token)"
    by (simp add: ex_keyring_def ex_world_def ex_cached_def nsPerDay_def nsPerSecond_def)
  from C1_cached_or_fresh [OF rs, of ex_keyring] usable
  have "\<exists>tokenJSON token.
      ex_keyring (serviceName, tokenKey) = Some tokenJSON \<and>
      decodeToken ex_world tokenJSON = Some token \<and>
      getToken ex_world ex_keyring = (Some (Inr token), [])"
    by blast
  then have hit: "getToken ex_world ex_keyring = (Some (Inr ex_cached), [])"
    by (auto simp: ex_keyring_def ex_world_def split: if_splits)
  have rs': "randomState (ex_world\<lparr>clock := ex_later\<rparr>) = Some ''nonce''"
    by (simp add: ex_world_def)
  have expired: "\<not> (\<exists>tokenJSON token.
      ex_keyring (serviceName, tokenKey) = Some tokenJSON \<and>
      decodeToken (ex_world\<lparr>clock := ex_later\<rparr>) tokenJSON = Some token \<and>
      unixNano (clock (ex_world\<lparr>clock := ex_later\<rparr>)) < unixNano (Expiry token))"
    by (simp add: ex_keyring_def ex_world_def ex_cached_def ex_later_def)
  from C1_cached_or_fresh [OF rs', of ex_keyring] expired
  have miss: "getToken (ex_world\<lparr>clock := ex_later\<rparr>) ex_keyring
                = authorize (ex_world\<lparr>clock := ex_later\<rparr>) ''nonce''"
    "snd (getToken (ex_world\<lparr>clock := ex_later\<rparr>) ex_keyring) \<noteq> []"
    by blast+
  from rs hit rs' miss show ?thesis
    by blast
qed

text \<open>
  C1 as stated fails: with a token in the keyring that decodes and has not expired,
  \<open>getToken\<close> returns an error, not the token, when the state nonce could not be
  generated.
\<close>

theorem C1_failed_nonce_counterexample:
  "ex_keyring (serviceName, tokenKey) = Some ''{cached}'' \<and>
   decodeToken (ex_world\<lparr>randomState := None\<rparr>) ''{cached}'' = Some ex_cached \<and>
   After (Expiry ex_cached) (clock (ex_world\<lparr>randomState := None\<rparr>)) \<and>
   getToken (ex_world\<lparr>randomState := None\<rparr>) ex_keyring = (Some (Inl UnableToGenerateState), [])"
  by (simp add: ex_keyring_def ex_world_def ex_cached_def After_def getToken_def
        nsPerDay_def nsPerSecond_def)


text \<open>
  C2. When the request that \<open>getToken\<close> receives from the handler carries a \<open>state\<close>
  other than the nonce of this attempt, \<open>getToken\<close> returns the error of the invalid
  state parameter and makes no token exchange; and in every run, a token exchange is only
  ever made with the code of a request whose \<open>state\<close> is the nonce.
\<close>

theorem C2_state_mismatch:
  "(randomState w = Some state \<and> cachedToken w kr = None \<and> freePort w = Some port \<and>
    browserOpens w \<and> firstEvent w = Some (Callback r) \<and> query_state r \<noteq> state
    \<longrightarrow> fst (getToken w kr) = Some (Inl InvalidStateParameter) \<and>
        (\<forall>code. Exchange code \<notin> set (snd (getToken w kr)))) \<and>
   (\<forall>code. Exchange code \<in> set (snd (getToken w kr)) \<longrightarrow>
      (\<exists>state r. randomState w = Some state \<and> firstEvent w = Some (Callback r) \<and>
                 query_state r = state \<and> query_code r = code))"
proof -
  have mismatch: "randomState w = Some state \<and> cachedToken w kr = None \<and> freePort w = Some port \<and>
    browserOpens w \<and> firstEvent w = Some (Callback r) \<and> query_state r \<noteq> state
    \<longrightarrow> fst (getToken w kr) = Some (Inl InvalidStateParameter) \<and>
        (\<forall>code. Exchange code \<notin> set (snd (getToken w kr)))"
  proof
    assume a: "randomState w = Some state \<and> cachedToken w kr = None \<and> freePort w = Some port \<and>
      browserOpens w \<and> firstEvent w = Some (Callback r) \<and> query_state r \<noteq> state"
    then have "getToken w kr = authorize w state"
      by (simp add: getToken_def)
    also have "\<dots> = (Some (Inl InvalidStateParameter),
                      [NetListen, ListenerClose port, ListenAndServe port, OpenBrowser state port])"
      using a by (simp add: authorize_def received_def handler_def)
    finally show "fst (getToken w kr) = Some (Inl InvalidStateParameter) \<and>
          (\<forall>code. Exchange code \<notin> set (snd (getToken w kr)))"
      by simp
  qed
  have only_matching: "\<forall>code. Exchange code \<in> set (snd (getToken w kr)) \<longrightarrow>
      (\<exists>state r. randomState w = Some state \<and> firstEvent w = Some (Callback r) \<and>
                 query_state r = state \<and> query_code r = code)"
  proof (intro allI impI)
    fix code
    assume e: "Exchange code \<in> set (snd (getToken w kr))"
    show "\<exists>state r. randomState w = Some state \<and> firstEvent w = Some (Callback r) \<and>
                   query_state r = state \<and> query_code r = code"
    proof (cases "randomState w")
      case None
      with e show ?thesis by (simp add: getToken_def)
    next
      case st: (Some state)
      show ?thesis
      proof (cases "cachedToken w kr")
        case (Some token)
        with e st show ?thesis by (simp add: getToken_def)
      next
        case None
        with e st have "Exchange code \<in> set (snd (authorize w state))"
          by (simp add: getToken_def)
        from authorize_exchange [OF this] st show ?thesis
          by blast
      qed
    qed
  qed
  show ?thesis
    by (rule conjI [OF mismatch only_matching])
qed

theorem C2_state_mismatch_witness:
  "randomState ex_mismatch = Some ''nonce'' \<and>
   cachedToken ex_mismatch ex_keyring = None \<and>
   freePort ex_mismatch = Some 49152 \<and>
   browserOpens ex_mismatch \<and>
   firstEvent ex_mismatch = Some (Callback \<lparr>query_state = ''forged'', query_code = ''4/0Ab''\<rparr>) \<and>
   query_state \<lparr>query_state = ''forged'', query_code = ''4/0Ab''\<rparr> \<noteq> ''nonce'' \<and>
   fst (getToken ex_mismatch ex_keyring) = Some (Inl InvalidStateParameter) \<and>
   Exchange ''4/0Ab'' \<notin> set (snd (getToken ex_mismatch ex_keyring))"
proof -
  have h: "randomState ex_mismatch = Some ''nonce'' \<and>
     cachedToken ex_mismatch ex_keyring = None \<and>
     freePort ex_mismatch = Some 49152 \<and>
     browserOpens ex_mismatch \<and>
     firstEvent ex_mismatch = Some (Callback \<lparr>query_state = ''forged'', query_code = ''4/0Ab''\<rparr>) \<and>
     query_state \<lparr>query_state = ''forged'', query_code = ''4/0Ab''\<rparr> \<noteq> ''nonce''"
    by (simp add: ex_mismatch_def ex_world_def cachedToken_def ex_keyring_def ex_cached_def
          ex_later_def After_def)
  from C2_state_mismatch [of ex_mismatch "''nonce''" ex_keyring 49152
      "\<lparr>query_state = ''forged'', query_code = ''4/0Ab''\<rparr>"] h
  have "fst (getToken ex_mismatch ex_keyring) = Some (Inl InvalidStateParameter) \<and>
        (\<forall>code. Exchange code \<notin> set (snd (getToken ex_mismatch ex_keyring)))"
    by blast
  with h show ?thesis
    by blast
qed

text \<open>
  No error return of \<open>getToken\<close> comes after a shutdown of the server, and a token
  obtained by the authorization flow comes after exactly one.
\<close>

lemma getToken_error_no_shutdown:
  "fst (getToken w kr) = Some (Inl err) \<Longrightarrow> ServerShutdown port \<notin> set (snd (getToken w kr))"
  by (auto simp: getToken_def authorize_def Let_def
      split: option.splits message.splits if_splits)

lemma getToken_token_one_shutdown:
  "fst (getToken w kr) = Some (Inr tok) \<Longrightarrow> snd (getToken w kr) \<noteq> []
   \<Longrightarrow> \<exists>port. freePort w = Some port \<and>
         filter (\<lambda>e. \<exists>p. e = ServerShutdown p) (snd (getToken w kr)) = [ServerShutdown port]"
  by (auto simp: getToken_def authorize_def Let_def
      split: option.splits message.splits if_splits)

text \<open>
  C8 does not hold of the code. \<open>server.Shutdown\<close> is only reached on the path that
  returns the token: when the context is cancelled, when the browser cannot be opened and
  when the token exchange fails, \<open>getToken\<close> returns after \<open>ListenAndServe\<close> was
  started and without a shutdown.
\<close>

theorem C8_server_left_running:
  "getToken (ex_world\<lparr>clock := ex_later, firstEvent := Some Cancelled\<rparr>) ex_keyring
     = (Some (Inl ContextDone),
        [NetListen, ListenerClose 49152, ListenAndServe 49152, OpenBrowser ''nonce'' 49152]) \<and>
   getToken (ex_world\<lparr>clock := ex_later, browserOpens := False\<rparr>) ex_keyring
     = (Some (Inl UnableToOpenBrowser),
        [NetListen, ListenerClose 49152, ListenAndServe 49152, OpenBrowser ''nonce'' 49152]) \<and>
   getToken (ex_world\<lparr>clock := ex_later, exchange := (\<lambda>code. None)\<rparr>) ex_keyring
     = (Some (Inl UnableToRetrieveToken),
        [NetListen, ListenerClose 49152, ListenAndServe 49152, OpenBrowser ''nonce'' 49152,
         Exchange ''4/0Ab'']) \<and>
   getToken (ex_world\<lparr>clock := ex_later\<rparr>) ex_keyring
     = (Some (Inr ex_issued),
        [NetListen, ListenerClose 49152, ListenAndServe 49152, OpenBrowser ''nonce'' 49152,
         Exchange ''4/0Ab'', KeyringSet tokenKey ''{issued}'', ServerShutdown 49152])"
  by (simp add: getToken_def authorize_def cachedToken_def received_def handler_def
        ex_world_def ex_keyring_def ex_cached_def ex_later_def After_def)


subsection \<open>The join\<close>








lemma exec_append:
  "exec fetch (as @ bs) s = (case exec fetch as s of None \<Rightarrow> None | Some s' \<Rightarrow> exec fetch bs s')"
  by (induction as arbitrary: s) (auto split: option.splits)




end
